theory Spec2Isabelle
  imports Main
begin

section \<open>Identifiers and the document store\<close>

text \<open>
  An ObjectId is written as its \<open>toString()\<close>: 24 lower-case hexadecimal digits. An
  identifier a function receives is either an ObjectId already (\<open>Oid\<close>) or a string
  (\<open>Str\<close>), as it comes out of a request; \<open>None\<close> is \<open>undefined\<close> or \<open>null\<close>.
  A query casts a string to an ObjectId when it is 24 hexadecimal digits, in either
  case; with any other string the query rejects with a CastError.
\<close>

type_synonym objid = string

datatype id_arg = Oid objid | Str string

datatype query_error = CastError string

definition is_hex :: "char \<Rightarrow> bool" where
  "is_hex ch = (ch \<in> set ''0123456789abcdefABCDEF'')"

definition hex_lower :: "char \<Rightarrow> char" where
  "hex_lower ch =
     (if ch = CHR ''A'' then CHR ''a'' else if ch = CHR ''B'' then CHR ''b''
      else if ch = CHR ''C'' then CHR ''c'' else if ch = CHR ''D'' then CHR ''d''
      else if ch = CHR ''E'' then CHR ''e'' else if ch = CHR ''F'' then CHR ''f''
      else ch)"

definition castObjectId :: "string \<Rightarrow> objid option" where
  "castObjectId s =
     (if length s = 24 \<and> list_all is_hex s then Some (map hex_lower s) else None)"

text \<open>\<open>!id\<close> is false for an ObjectId and for a non-empty string.\<close>

fun truthy :: "id_arg option \<Rightarrow> bool" where
  "truthy None = False"
| "truthy (Some (Oid i)) = True"
| "truthy (Some (Str s)) = (s \<noteq> [])"

text \<open>\<open>id.toString()\<close>, which the validator calls on identifiers it has found truthy.\<close>

fun id_toString :: "id_arg option \<Rightarrow> string" where
  "id_toString None = []"
| "id_toString (Some (Oid i)) = i"
| "id_toString (Some (Str s)) = s"

text \<open>The ObjectId an identifier denotes to a query, if it can be cast.\<close>

fun resolve :: "id_arg option \<Rightarrow> objid option" where
  "resolve None = None"
| "resolve (Some (Oid i)) = Some i"
| "resolve (Some (Str s)) = castObjectId s"

text \<open>
  Stored documents carry the references their schema marks \<open>required\<close> as plain
  values: \<open>sector.district\<close>, \<open>cell.sector\<close> and \<open>cell.district\<close>.
\<close>

record district =
  d_code :: string

record sector =
  s_code :: string
  s_district :: objid

record cell =
  c_code :: string
  c_sector :: objid
  c_district :: objid

record hierarchy =
  h_district :: "objid option"
  h_sector :: "objid option"
  h_cell :: "objid option"

record user =
  role :: string
  hierarchy :: hierarchy
  intoreGroup :: "objid option"
  loginAttempts :: int
  lockUntil :: "int option"

record store =
  districts :: "objid \<rightharpoonup> district"
  sectors :: "objid \<rightharpoonup> sector"
  cells :: "objid \<rightharpoonup> cell"
  users :: "objid \<rightharpoonup> user"

text \<open>
  \<open>await Model.findById(id)\<close>: the document, \<open>null\<close> when there is none, or the
  rejection with a CastError when the identifier cannot be cast.
\<close>

fun findById :: "(objid \<rightharpoonup> 'a) \<Rightarrow> id_arg option \<Rightarrow> query_error + 'a option" where
  "findById coll None = Inr None"
| "findById coll (Some (Oid i)) = Inr (coll i)"
| "findById coll (Some (Str s)) =
     (case castObjectId s of None \<Rightarrow> Inl (CastError s) | Some i \<Rightarrow> Inr (coll i))"

text \<open>The setter \<open>trim\<close> of a schema string: white space is cut off at both ends.\<close>

definition is_space :: "char \<Rightarrow> bool" where
  "is_space ch = (ch \<in> set [CHR '' '', CHR 0x09, CHR 0x0A, CHR 0x0B, CHR 0x0C, CHR 0x0D])"

definition trim :: "string \<Rightarrow> string" where
  "trim s = rev (dropWhile is_space (rev (dropWhile is_space s)))"

section \<open>Hierarchy validation (utils/validation, \<open>validateHierarchy\<close>)\<close>

record validation =
  isValid :: bool
  errors :: "string list"

text \<open>
  One definition per \<open>if (role === ...)\<close> block of the source; each takes the error
  list built so far and returns it with what the block pushes, or the error the awaited
  query throws: the function catches nothing.
\<close>

definition district_admin_rule ::
  "store \<Rightarrow> id_arg option \<Rightarrow> string list \<Rightarrow> query_error + string list" where
  "district_admin_rule db districtId errs =
     (if \<not> truthy districtId
      then Inr (errs @ [''District admin must be assigned to a district.''])
      else (case findById (districts db) districtId of
              Inl e \<Rightarrow> Inl e
            | Inr None \<Rightarrow> Inr (errs @ [''Invalid district ID.''])
            | Inr (Some district) \<Rightarrow> Inr errs))"

definition sector_admin_rule ::
  "store \<Rightarrow> id_arg option \<Rightarrow> id_arg option \<Rightarrow> string list \<Rightarrow> query_error + string list" where
  "sector_admin_rule db districtId sectorId errs =
     (if \<not> truthy districtId \<or> \<not> truthy sectorId
      then Inr (errs @ [''Sector admin must be assigned to a district and sector.''])
      else (case findById (sectors db) sectorId of
              Inl e \<Rightarrow> Inl e
            | Inr None \<Rightarrow>
                Inr (errs @ [''Invalid sector or sector does not belong to the specified district.''])
            | Inr (Some sector) \<Rightarrow>
                if s_district sector \<noteq> id_toString districtId
                then Inr (errs @ [''Invalid sector or sector does not belong to the specified district.''])
                else Inr errs))"

definition cell_rule ::
  "string \<Rightarrow> store \<Rightarrow> id_arg option \<Rightarrow> id_arg option \<Rightarrow> id_arg option \<Rightarrow> string list
     \<Rightarrow> query_error + string list" where
  "cell_rule missing db districtId sectorId cellId errs =
     (if \<not> truthy districtId \<or> \<not> truthy sectorId \<or> \<not> truthy cellId
      then Inr (errs @ [missing])
      else (case findById (cells db) cellId of
              Inl e \<Rightarrow> Inl e
            | Inr None \<Rightarrow>
                Inr (errs @ [''Invalid cell or cell does not belong to the specified sector and district.''])
            | Inr (Some cell) \<Rightarrow>
                if c_sector cell \<noteq> id_toString sectorId \<or> c_district cell \<noteq> id_toString districtId
                then Inr (errs @ [''Invalid cell or cell does not belong to the specified sector and district.''])
                else Inr errs))"

text \<open>\<open>Inl e\<close>: the call throws \<open>e\<close> (its promise rejects); \<open>Inr v\<close>: it returns \<open>v\<close>.\<close>

definition validateHierarchy ::
  "store \<Rightarrow> string \<Rightarrow> id_arg option \<Rightarrow> id_arg option \<Rightarrow> id_arg option
     \<Rightarrow> query_error + validation" where
  "validateHierarchy db r districtId sectorId cellId =
     (if r = ''super_admin'' then Inr \<lparr>isValid = True, errors = []\<rparr>
      else
        case (if r = ''district_admin'' then district_admin_rule db districtId [] else Inr []) of
          Inl e \<Rightarrow> Inl e
        | Inr e1 \<Rightarrow>
        (case (if r = ''sector_admin'' then sector_admin_rule db districtId sectorId e1
               else Inr e1) of
          Inl e \<Rightarrow> Inl e
        | Inr e2 \<Rightarrow>
        (case (if r = ''cell_admin''
               then cell_rule ''Cell admin must be assigned to a district, sector, and cell.''
                      db districtId sectorId cellId e2
               else Inr e2) of
          Inl e \<Rightarrow> Inl e
        | Inr e3 \<Rightarrow>
        (case (if r = ''member''
               then cell_rule ''Member must be assigned to a district, sector, and cell.''
                      db districtId sectorId cellId e3
               else Inr e3) of
          Inl e \<Rightarrow> Inl e
        | Inr e4 \<Rightarrow> Inr \<lparr>isValid = (length e4 = 0), errors = e4\<rparr>))))"

text \<open>
  The \<open>required\<close> functions of the User schema's hierarchy fields
  (\<open>hierarchy.district\<close>, \<open>hierarchy.sector\<close>, \<open>hierarchy.cell\<close>).
\<close>

definition district_required :: "string \<Rightarrow> bool" where
  "district_required r = (r \<noteq> ''super_admin'')"

definition sector_required :: "string \<Rightarrow> bool" where
  "sector_required r = (r \<in> set [''sector_admin'', ''cell_admin'', ''member''])"

definition cell_required :: "string \<Rightarrow> bool" where
  "cell_required r = (r \<in> set [''cell_admin'', ''member''])"

definition handled_roles :: "string list" where
  "handled_roles = [''super_admin'', ''district_admin'', ''sector_admin'', ''cell_admin'', ''member'']"



text \<open>A small store for the concrete instances: district KGL, sector NYA, cell C1.\<close>

abbreviation id_KGL :: objid where "id_KGL \<equiv> ''64d1000000000000000000a1''"
abbreviation id_HUY :: objid where "id_HUY \<equiv> ''64d1000000000000000000a2''"
abbreviation id_NYA :: objid where "id_NYA \<equiv> ''64d2000000000000000000b1''"
abbreviation id_S404 :: objid where "id_S404 \<equiv> ''64d2000000000000000000b4''"
abbreviation id_C1 :: objid where "id_C1 \<equiv> ''64d3000000000000000000c1''"
abbreviation id_C404 :: objid where "id_C404 \<equiv> ''64d3000000000000000000c4''"
abbreviation id_C7 :: objid where "id_C7 \<equiv> ''64d3000000000000000000c7''"
abbreviation id_C8 :: objid where "id_C8 \<equiv> ''64d3000000000000000000c8''"
abbreviation id_C9 :: objid where "id_C9 \<equiv> ''64d3000000000000000000c9''"
abbreviation id_G8 :: objid where "id_G8 \<equiv> ''64d4000000000000000000e8''"
abbreviation id_G9 :: objid where "id_G9 \<equiv> ''64d4000000000000000000e9''"
abbreviation id_U1 :: objid where "id_U1 \<equiv> ''64d5000000000000000000f1''"
abbreviation id_U2 :: objid where "id_U2 \<equiv> ''64d5000000000000000000f2''"

definition demo_user :: user where
  "demo_user = \<lparr>role = ''member'',
                 hierarchy = \<lparr>h_district = None, h_sector = None, h_cell = None\<rparr>,
                 intoreGroup = None, loginAttempts = 0, lockUntil = None\<rparr>"

definition demo_store :: store where
  "demo_store =
     \<lparr>districts = [id_KGL \<mapsto> \<lparr>d_code = ''KGL''\<rparr>, id_HUY \<mapsto> \<lparr>d_code = ''HUY''\<rparr>],
      sectors = [id_NYA \<mapsto> \<lparr>s_code = ''NYA'', s_district = id_KGL\<rparr>],
      cells = [id_C1 \<mapsto> \<lparr>c_code = ''C1'', c_sector = id_NYA, c_district = id_KGL\<rparr>],
      users = [id_U1 \<mapsto> demo_user]\<rparr>"

section \<open>Saving a District, Sector, Cell or IntoreGroup (the \<open>pre('save')\<close> chain)\<close>

text \<open>
  A document being saved, as Mongoose holds it: its \<open>_id\<close>, the fields of its schema
  that carry a validator, the references it holds at that moment (a reference not
  assigned is \<open>None\<close>), \<open>isNew\<close>, and the paths \<open>isModified\<close> answers true for.
\<close>

record district_doc =
  dd_id :: objid
  dd_name :: string
  dd_code :: string
  dd_description :: string
  dd_address :: string
  dd_population :: int
  dd_status :: string
  dd_admin :: "objid option"
  dd_modified :: "string list"

record sector_doc =
  sd_id :: objid
  sd_name :: string
  sd_code :: string
  sd_description :: string
  sd_district :: "objid option"
  sd_address :: string
  sd_population :: int
  sd_status :: string
  sd_admin :: "objid option"
  sd_modified :: "string list"

record cell_doc =
  cd_id :: objid
  cd_name :: string
  cd_code :: string
  cd_description :: string
  cd_sector :: "objid option"
  cd_district :: "objid option"
  cd_address :: string
  cd_population :: int
  cd_status :: string
  cd_admin :: "objid option"
  cd_isNew :: bool
  cd_modified :: "string list"

record group_doc =
  gd_id :: objid
  gd_name :: string
  gd_code :: string
  gd_description :: string
  gd_type :: string
  gd_status :: string
  gd_leader :: "objid option"
  gd_cell :: "objid option"
  gd_sector :: "objid option"
  gd_district :: "objid option"
  gd_isNew :: bool
  gd_modified :: "string list"

text \<open>
  How a hook hands over: \<open>next()\<close> lets the save go on, \<open>next(err)\<close> rejects it with
  \<open>err\<close>: a validation error naming the paths that failed, or the error of a query.
\<close>

datatype save_error = ValidationError "string list" | QueryFailed query_error

datatype next_call = Next | NextError save_error

type_synonym 'd hook = "'d \<Rightarrow> store \<Rightarrow> next_call \<times> 'd \<times> store"

text \<open>The hooks of a schema run in the order they are registered; \<open>next(err)\<close> ends the chain.\<close>

fun run_hooks :: "'d hook list \<Rightarrow> 'd \<Rightarrow> store \<Rightarrow> next_call \<times> 'd \<times> store" where
  "run_hooks [] doc db = (Next, doc, db)"
| "run_hooks (h # hs) doc db =
     (case h doc db of
        (Next, doc', db') \<Rightarrow> run_hooks hs doc' db'
      | (NextError e, doc', db') \<Rightarrow> (NextError e, doc', db'))"

definition outcome :: "next_call \<times> 'd \<times> store \<Rightarrow> next_call" where
  "outcome r = fst r"

definition saved_doc :: "next_call \<times> 'd \<times> store \<Rightarrow> 'd" where
  "saved_doc r = fst (snd r)"

definition store_after :: "next_call \<times> 'd \<times> store \<Rightarrow> store" where
  "store_after r = snd (snd r)"

text \<open>
  Mongoose's own validation is the first \<open>pre('save')\<close> hook of every schema: it runs
  the validators of the schema before any hook the schema registers, and rejects the
  save with a ValidationError when a path fails. A validator sees its field after the
  schema's setters (\<open>trim\<close>). The validators below give the failing paths in the order
  of the schema.
\<close>

definition validate_hook :: "('d \<Rightarrow> string list) \<Rightarrow> 'd hook" where
  "validate_hook validators doc db =
     (if validators doc = [] then (Next, doc, db)
      else (NextError (ValidationError (validators doc)), doc, db))"

definition required_string :: "string \<Rightarrow> nat \<Rightarrow> string \<Rightarrow> string list" where
  "required_string path maxlength v =
     (if trim v = [] \<or> length (trim v) > maxlength then [path] else [])"

definition bounded_string :: "string \<Rightarrow> nat \<Rightarrow> string \<Rightarrow> string list" where
  "bounded_string path maxlength v = (if length v > maxlength then [path] else [])"

definition required_ref :: "string \<Rightarrow> objid option \<Rightarrow> string list" where
  "required_ref path v = (if v = None then [path] else [])"

definition one_of :: "string \<Rightarrow> string list \<Rightarrow> string \<Rightarrow> string list" where
  "one_of path enum v = (if v \<in> set enum then [] else [path])"

definition at_least_zero :: "string \<Rightarrow> int \<Rightarrow> string list" where
  "at_least_zero path v = (if v < 0 then [path] else [])"

definition entity_statuses :: "string list" where
  "entity_statuses = [''active'', ''inactive'', ''pending'']"

definition group_types :: "string list" where
  "group_types =
     [''dance'', ''music'', ''storytelling'', ''craft'', ''agriculture'', ''traditional_knowledge'']"

text \<open>
  \<open>User.findByIdAndUpdate(id, update).exec()\<close>: the update is applied to the user with
  that identifier; with no such user nothing changes. The hooks start the update and go
  on without waiting for it; the values it writes are those the document holds when the
  hook runs. A reference the document does not hold is written as absent.
\<close>

definition findByIdAndUpdate ::
  "(objid \<rightharpoonup> user) \<Rightarrow> objid \<Rightarrow> (user \<Rightarrow> user) \<Rightarrow> (objid \<rightharpoonup> user)" where
  "findByIdAndUpdate us i upd = (case us i of None \<Rightarrow> us | Some u \<Rightarrow> us(i \<mapsto> upd u))"

definition isModified :: "string \<Rightarrow> string list \<Rightarrow> bool" where
  "isModified path modified = (path \<in> set modified)"

subsection \<open>District\<close>

definition district_validate :: "district_doc \<Rightarrow> string list" where
  "district_validate doc =
     required_string ''name'' 100 (dd_name doc)
     @ required_string ''code'' 10 (dd_code doc)
     @ bounded_string ''description'' 500 (dd_description doc)
     @ bounded_string ''location.address'' 200 (dd_address doc)
     @ at_least_zero ''population'' (dd_population doc)
     @ one_of ''status'' entity_statuses (dd_status doc)"

definition district_admin_update :: "district_doc \<Rightarrow> user \<Rightarrow> user" where
  "district_admin_update doc u =
     u\<lparr>role := ''district_admin'',
       hierarchy := (hierarchy u)\<lparr>h_district := Some (dd_id doc)\<rparr>\<rparr>"

definition district_admin_hook :: "district_doc hook" where
  "district_admin_hook doc db =
     (case dd_admin doc of
        Some a \<Rightarrow>
          if isModified ''admin'' (dd_modified doc)
          then (Next, doc, db\<lparr>users := findByIdAndUpdate (users db) a (district_admin_update doc)\<rparr>)
          else (Next, doc, db)
      | None \<Rightarrow> (Next, doc, db))"

definition district_pre_save :: "district_doc hook" where
  "district_pre_save = run_hooks [validate_hook district_validate, district_admin_hook]"

subsection \<open>Sector\<close>

definition sector_validate :: "sector_doc \<Rightarrow> string list" where
  "sector_validate doc =
     required_string ''name'' 100 (sd_name doc)
     @ required_string ''code'' 10 (sd_code doc)
     @ bounded_string ''description'' 500 (sd_description doc)
     @ required_ref ''district'' (sd_district doc)
     @ bounded_string ''location.address'' 200 (sd_address doc)
     @ at_least_zero ''population'' (sd_population doc)
     @ one_of ''status'' entity_statuses (sd_status doc)"

definition sector_admin_update :: "sector_doc \<Rightarrow> user \<Rightarrow> user" where
  "sector_admin_update doc u =
     u\<lparr>role := ''sector_admin'',
       hierarchy := (hierarchy u)\<lparr>h_district := sd_district doc, h_sector := Some (sd_id doc)\<rparr>\<rparr>"

definition sector_admin_hook :: "sector_doc hook" where
  "sector_admin_hook doc db =
     (case sd_admin doc of
        Some a \<Rightarrow>
          if isModified ''admin'' (sd_modified doc)
          then (Next, doc, db\<lparr>users := findByIdAndUpdate (users db) a (sector_admin_update doc)\<rparr>)
          else (Next, doc, db)
      | None \<Rightarrow> (Next, doc, db))"

definition sector_pre_save :: "sector_doc hook" where
  "sector_pre_save = run_hooks [validate_hook sector_validate, sector_admin_hook]"

subsection \<open>Cell\<close>

definition cell_validate :: "cell_doc \<Rightarrow> string list" where
  "cell_validate doc =
     required_string ''name'' 100 (cd_name doc)
     @ required_string ''code'' 10 (cd_code doc)
     @ bounded_string ''description'' 500 (cd_description doc)
     @ required_ref ''sector'' (cd_sector doc)
     @ required_ref ''district'' (cd_district doc)
     @ bounded_string ''location.address'' 200 (cd_address doc)
     @ at_least_zero ''population'' (cd_population doc)
     @ one_of ''status'' entity_statuses (cd_status doc)"

definition cell_admin_update :: "cell_doc \<Rightarrow> user \<Rightarrow> user" where
  "cell_admin_update doc u =
     u\<lparr>role := ''cell_admin'',
       hierarchy := (hierarchy u)\<lparr>h_district := cd_district doc, h_sector := cd_sector doc,
                                  h_cell := Some (cd_id doc)\<rparr>\<rparr>"

definition cell_admin_hook :: "cell_doc hook" where
  "cell_admin_hook doc db =
     (case cd_admin doc of
        Some a \<Rightarrow>
          if isModified ''admin'' (cd_modified doc)
          then (Next, doc, db\<lparr>users := findByIdAndUpdate (users db) a (cell_admin_update doc)\<rparr>)
          else (Next, doc, db)
      | None \<Rightarrow> (Next, doc, db))"

text \<open>
  The reference hook: \<open>.then\<close> fills the district when the sector is found and calls
  \<open>next()\<close> either way; \<open>.catch(next)\<close> hands on the error of a query that fails.
\<close>

definition cell_refs_hook :: "cell_doc hook" where
  "cell_refs_hook doc db =
     (if cd_isNew doc \<and> cd_sector doc \<noteq> None
      then (case findById (sectors db) (map_option Oid (cd_sector doc)) of
              Inl e \<Rightarrow> (NextError (QueryFailed e), doc, db)
            | Inr (Some sector) \<Rightarrow> (Next, doc\<lparr>cd_district := Some (s_district sector)\<rparr>, db)
            | Inr None \<Rightarrow> (Next, doc, db))
      else (Next, doc, db))"

definition cell_pre_save :: "cell_doc hook" where
  "cell_pre_save = run_hooks [validate_hook cell_validate, cell_admin_hook, cell_refs_hook]"

subsection \<open>IntoreGroup\<close>

definition group_validate :: "group_doc \<Rightarrow> string list" where
  "group_validate doc =
     required_string ''name'' 100 (gd_name doc)
     @ required_string ''code'' 10 (gd_code doc)
     @ bounded_string ''description'' 1000 (gd_description doc)
     @ one_of ''type'' group_types (gd_type doc)
     @ one_of ''status'' entity_statuses (gd_status doc)
     @ required_ref ''cell'' (gd_cell doc)
     @ required_ref ''sector'' (gd_sector doc)
     @ required_ref ''district'' (gd_district doc)"

definition group_leader_update :: "group_doc \<Rightarrow> user \<Rightarrow> user" where
  "group_leader_update doc u = u\<lparr>intoreGroup := Some (gd_id doc)\<rparr>"

definition group_leader_hook :: "group_doc hook" where
  "group_leader_hook doc db =
     (case gd_leader doc of
        Some l \<Rightarrow>
          if isModified ''leader'' (gd_modified doc)
          then (Next, doc, db\<lparr>users := findByIdAndUpdate (users db) l (group_leader_update doc)\<rparr>)
          else (Next, doc, db)
      | None \<Rightarrow> (Next, doc, db))"

definition group_refs_hook :: "group_doc hook" where
  "group_refs_hook doc db =
     (if gd_isNew doc \<and> gd_cell doc \<noteq> None
      then (case findById (cells db) (map_option Oid (gd_cell doc)) of
              Inl e \<Rightarrow> (NextError (QueryFailed e), doc, db)
            | Inr (Some cell) \<Rightarrow>
                (Next, doc\<lparr>gd_sector := Some (c_sector cell), gd_district := Some (c_district cell)\<rparr>, db)
            | Inr None \<Rightarrow> (Next, doc, db))
      else (Next, doc, db))"

definition group_pre_save :: "group_doc hook" where
  "group_pre_save = run_hooks [validate_hook group_validate, group_leader_hook, group_refs_hook]"

text \<open>Documents for the concrete instances.\<close>

definition base_cell :: cell_doc where
  "base_cell = \<lparr>cd_id = id_C9, cd_name = ''Cell One'', cd_code = ''C1'', cd_description = [],
                cd_sector = Some id_NYA, cd_district = Some id_KGL, cd_address = [],
                cd_population = 0, cd_status = ''pending'', cd_admin = None,
                cd_isNew = True, cd_modified = [''name'', ''code'', ''sector'', ''district'']\<rparr>"

definition base_group :: group_doc where
  "base_group = \<lparr>gd_id = id_G9, gd_name = ''Intore One'', gd_code = ''G1'', gd_description = [],
                 gd_type = ''dance'', gd_status = ''pending'', gd_leader = None,
                 gd_cell = Some id_C1, gd_sector = Some id_NYA, gd_district = Some id_KGL,
                 gd_isNew = True,
                 gd_modified = [''name'', ''code'', ''type'', ''cell'', ''sector'', ''district'']\<rparr>"

definition new_cell :: cell_doc where
  "new_cell = base_cell\<lparr>cd_district := None, cd_modified := [''name'', ''code'', ''sector'']\<rparr>"

definition new_group :: group_doc where
  "new_group = base_group\<lparr>gd_sector := None, gd_district := None,
                           gd_modified := [''name'', ''code'', ''type'', ''cell'']\<rparr>"

definition led_group :: group_doc where
  "led_group = base_group\<lparr>gd_leader := Some id_U1,
       gd_modified := [''name'', ''code'', ''type'', ''cell'', ''sector'', ''district'', ''leader'']\<rparr>"

definition orphan_cell :: cell_doc where
  "orphan_cell = base_cell\<lparr>cd_id := id_C8, cd_sector := Some id_S404, cd_admin := Some id_U1,
       cd_modified := [''name'', ''code'', ''sector'', ''district'', ''admin'']\<rparr>"

definition orphan_group :: group_doc where
  "orphan_group = base_group\<lparr>gd_id := id_G8, gd_cell := Some id_C404\<rparr>"

definition misfiled_cell :: cell_doc where
  "misfiled_cell = base_cell\<lparr>cd_id := id_C7, cd_district := Some id_HUY, cd_admin := Some id_U1,
       cd_modified := [''name'', ''code'', ''sector'', ''district'', ''admin'']\<rparr>"

definition kept_cell :: cell_doc where
  "kept_cell = base_cell\<lparr>cd_id := id_C1, cd_admin := Some id_U1, cd_isNew := False,
       cd_modified := [''admin'']\<rparr>"

definition kept_district :: district_doc where
  "kept_district = \<lparr>dd_id = id_KGL, dd_name = ''Kigali'', dd_code = ''KGL'', dd_description = [],
                    dd_address = [], dd_population = 0, dd_status = ''active'',
                    dd_admin = Some id_U1, dd_modified = [''admin'']\<rparr>"

definition kept_sector :: sector_doc where
  "kept_sector = \<lparr>sd_id = id_NYA, sd_name = ''Nyarugenge'', sd_code = ''NYA'',
                  sd_description = [], sd_district = Some id_KGL, sd_address = [],
                  sd_population = 0, sd_status = ''active'', sd_admin = Some id_U1,
                  sd_modified = [''admin'']\<rparr>"

section \<open>The global error handler (middleware, \<open>errorHandler\<close>)\<close>

datatype err_code = NoCode | NumCode int | StrCode string

text \<open>\<open>error.message\<close> is a string, or for a validation error the array of its messages.\<close>

datatype message = Text string | Messages "string list"

record js_error =
  e_name :: string
  e_code :: err_code
  e_message :: string
  e_stack :: string
  e_statusCode :: "int option"
  e_errors :: "string list option"

record reply_error =
  r_message :: message
  r_statusCode :: "int option"

record request =
  rq_user :: "objid option"
  rq_originalUrl :: string
  rq_method :: string
  rq_ip :: "string option"
  rq_userAgent :: "string option"

record audit_metadata =
  m_errorMessage :: string
  m_stack :: string
  m_url :: string
  m_method :: string
  m_userAgent :: "string option"
  m_ipAddress :: "string option"

record audit_call =
  a_action :: string
  a_resourceType :: string
  a_resourceId :: "objid option"
  a_performedBy :: "objid option"
  a_metadata :: audit_metadata
  a_severity :: string
  a_description :: string
  a_ipAddress :: "string option"
  a_userAgent :: "string option"

record response =
  status :: int
  success :: bool
  message :: message
  stack :: "string option"

text \<open>What awaiting \<open>AuditLog.logAction(...)\<close> gives: the write is done, or it throws.\<close>

datatype write_outcome = Written | WriteFailed string

text \<open>
  The AuditLog schema's field rules (\<open>required\<close>, \<open>enum\<close>, \<open>maxlength\<close>, applied
  after the setter \<open>trim\<close> of \<open>action\<close> and \<open>resourceType\<close>) and \<open>logAction\<close>,
  which creates the record under them.
\<close>

definition auditLog_resourceTypes :: "string list" where
  "auditLog_resourceTypes =
     [''user'', ''district'', ''sector'', ''cell'', ''intore_group'', ''activity'', ''media'',
      ''attendance'', ''chat'', ''notification'', ''report'', ''cultural_content'']"

definition auditLog_severities :: "string list" where
  "auditLog_severities = [''info'', ''warning'', ''error'', ''critical'']"

definition auditLog_accepts :: "audit_call \<Rightarrow> bool" where
  "auditLog_accepts a =
     (trim (a_action a) \<noteq> [] \<and> length (trim (a_action a)) \<le> 100
      \<and> trim (a_resourceType a) \<in> set auditLog_resourceTypes
      \<and> a_resourceId a \<noteq> None
      \<and> a_performedBy a \<noteq> None
      \<and> a_severity a \<in> set auditLog_severities
      \<and> length (a_description a) \<le> 500)"

definition logAction :: "audit_call \<Rightarrow> write_outcome" where
  "logAction a = (if auditLog_accepts a then Written else WriteFailed ''ValidationError'')"

text \<open>
  The chain of \<open>if\<close> blocks that rewrites \<open>error\<close>; a later block overrides an
  earlier. \<open>Object.values(err.errors)\<close> throws a TypeError when a ValidationError carries
  no \<open>errors\<close>.
\<close>

definition reply_error_of :: "js_error \<Rightarrow> string + reply_error" where
  "reply_error_of err =
     (if e_name err = ''ValidationError'' \<and> e_errors err = None then Inl ''TypeError''
      else Inr
     (let e0 = \<lparr>r_message = Text (e_message err), r_statusCode = e_statusCode err\<rparr>;
          e1 = (if e_name err = ''CastError''
                then \<lparr>r_message = Text ''Resource not found'', r_statusCode = Some 404\<rparr> else e0);
          e2 = (if e_code err = NumCode 11000
                then \<lparr>r_message = Text ''Duplicate field value entered'', r_statusCode = Some 400\<rparr>
                else e1);
          e3 = (if e_name err = ''ValidationError''
                then \<lparr>r_message = Messages (case e_errors err of Some ms \<Rightarrow> ms | None \<Rightarrow> []),
                      r_statusCode = Some 400\<rparr>
                else e2);
          e4 = (if e_name err = ''JsonWebTokenError''
                then \<lparr>r_message = Text ''Invalid token'', r_statusCode = Some 401\<rparr> else e3);
          e5 = (if e_name err = ''TokenExpiredError''
                then \<lparr>r_message = Text ''Token has expired'', r_statusCode = Some 401\<rparr> else e4);
          e6 = (if e_code err = StrCode ''LIMIT_FILE_SIZE''
                then \<lparr>r_message = Text ''File too large'', r_statusCode = Some 400\<rparr> else e5);
          e7 = (if e_code err = StrCode ''LIMIT_UNEXPECTED_FILE''
                then \<lparr>r_message = Text ''Unexpected file field'', r_statusCode = Some 400\<rparr>
                else e6)
      in e7))"

text \<open>
  The response of the last statement: \<open>error.statusCode || 500\<close>,
  \<open>error.message || 'Server Error'\<close>, and the stack in development only.
\<close>

definition error_response :: "bool \<Rightarrow> js_error \<Rightarrow> reply_error \<Rightarrow> response" where
  "error_response development err error =
     \<lparr>status = (case r_statusCode error of
                    None \<Rightarrow> 500
                  | Some n \<Rightarrow> if n = 0 then 500 else n),
      success = False,
      message = (if r_message error = Text [] then Text ''Server Error'' else r_message error),
      stack = (if development then Some (e_stack err) else None)\<rparr>"

definition error_audit_call :: "js_error \<Rightarrow> request \<Rightarrow> objid \<Rightarrow> audit_call" where
  "error_audit_call err req uid =
     \<lparr>a_action = ''ERROR'', a_resourceType = ''system'', a_resourceId = None,
      a_performedBy = Some uid,
      a_metadata = \<lparr>m_errorMessage = e_message err, m_stack = e_stack err,
                     m_url = rq_originalUrl req, m_method = rq_method req,
                     m_userAgent = rq_userAgent req, m_ipAddress = rq_ip req\<rparr>,
      a_severity = ''error'', a_description = ''System error occurred'',
      a_ipAddress = rq_ip req, a_userAgent = rq_userAgent req\<rparr>"

text \<open>
  The handler. \<open>Inr\<close> is the response it sends; \<open>Inl e\<close> is the handler's own promise
  rejecting with \<open>e\<close> before \<open>res.status(...).json(...)\<close> is reached: nothing
  catches what the awaited audit write throws. The audit write is the argument \<open>audit\<close>.
\<close>

definition errorHandler ::
  "bool \<Rightarrow> (audit_call \<Rightarrow> write_outcome) \<Rightarrow> js_error \<Rightarrow> request \<Rightarrow> string + response" where
  "errorHandler development audit err req =
     (case reply_error_of err of
        Inl e \<Rightarrow> Inl e
      | Inr error \<Rightarrow>
          (case rq_user req of
             Some uid \<Rightarrow>
               (case audit (error_audit_call err req uid) of
                  WriteFailed e \<Rightarrow> Inl e
                | Written \<Rightarrow> Inr (error_response development err error))
           | None \<Rightarrow> Inr (error_response development err error)))"

definition demo_error :: js_error where
  "demo_error = \<lparr>e_name = ''Error'', e_code = NoCode, e_message = ''Quota exceeded'',
                 e_stack = ''Error: Quota exceeded'', e_statusCode = Some 403, e_errors = None\<rparr>"

definition demo_request :: request where
  "demo_request = \<lparr>rq_user = Some id_U1, rq_originalUrl = ''/api/cells'', rq_method = ''POST'',
                   rq_ip = Some ''10.0.0.7'', rq_userAgent = Some ''curl''\<rparr>"

section \<open>Rate limiting of sensitive operations (middleware/auth, \<open>rateLimitSensitive\<close>)\<close>

text \<open>
  \<open>req.ip + req.user?._id || 'anonymous'\<close>: \<open>+\<close> binds tighter than \<open>||\<close>. A missing
  operand next to a string prints as \<open>undefined\<close>; two missing operands add up to
  \<open>NaN\<close>, which is falsy, as is the empty string.
\<close>

definition rate_key :: "string option \<Rightarrow> objid option \<Rightarrow> string" where
  "rate_key ip uid =
     (case (ip, uid) of
        (None, None) \<Rightarrow> ''anonymous''
      | (Some a, None) \<Rightarrow> a @ ''undefined''
      | (None, Some u) \<Rightarrow> ''undefined'' @ u
      | (Some a, Some u) \<Rightarrow> if a @ u = [] then ''anonymous'' else a @ u)"

datatype rate_verdict = TooMany response | Passed

definition too_many_response :: response where
  "too_many_response =
     \<lparr>status = 429, success = False,
      message = Text ''Too many requests. Please try again later.'', stack = None\<rparr>"

text \<open>
  One call of the middleware for the key \<open>key\<close> at time \<open>now\<close> (milliseconds):
  the map \<open>requests\<close> before, and after with the verdict.
\<close>

definition rateLimitSensitive ::
  "int \<Rightarrow> nat \<Rightarrow> (string \<rightharpoonup> int list) \<Rightarrow> string \<Rightarrow> int
     \<Rightarrow> (string \<rightharpoonup> int list) \<times> rate_verdict" where
  "rateLimitSensitive windowMs max_requests requests key now =
     (let windowStart = now - windowMs;
          requests1 = (if requests key = None then requests(key \<mapsto> []) else requests);
          userRequests = (case requests1 key of Some ts \<Rightarrow> ts | None \<Rightarrow> []);
          validRequests = filter (\<lambda>time. time > windowStart) userRequests
      in if length validRequests \<ge> max_requests
         then (requests1, TooMany too_many_response)
         else (requests1(key \<mapsto> validRequests @ [now]), Passed))"

text \<open>
  A run of the middleware over the requests \<open>(key, now)\<close> in arrival order; the result is
  the list of those passed on to \<open>next()\<close>.
\<close>

fun admitted ::
  "int \<Rightarrow> nat \<Rightarrow> (string \<rightharpoonup> int list) \<Rightarrow> (string \<times> int) list \<Rightarrow> (string \<times> int) list" where
  "admitted windowMs max_requests requests [] = []"
| "admitted windowMs max_requests requests ((key, now) # rest) =
     (case rateLimitSensitive windowMs max_requests requests key now of
        (requests', Passed) \<Rightarrow> (key, now) # admitted windowMs max_requests requests' rest
      | (requests', TooMany r) \<Rightarrow> admitted windowMs max_requests requests' rest)"

text \<open>The map \<open>requests\<close> after the same run.\<close>

fun requests_after ::
  "int \<Rightarrow> nat \<Rightarrow> (string \<rightharpoonup> int list) \<Rightarrow> (string \<times> int) list \<Rightarrow> (string \<rightharpoonup> int list)" where
  "requests_after windowMs max_requests requests [] = requests"
| "requests_after windowMs max_requests requests ((key, now) # rest) =
     requests_after windowMs max_requests
       (fst (rateLimitSensitive windowMs max_requests requests key now)) rest"

text \<open>The timestamps recorded for a key, and those of a list that fall in \<open>(t - w, t]\<close>.\<close>

definition recorded :: "(string \<rightharpoonup> int list) \<Rightarrow> string \<Rightarrow> int list" where
  "recorded requests key = (case requests key of Some ts \<Rightarrow> ts | None \<Rightarrow> [])"

definition times_of :: "string \<Rightarrow> (string \<times> int) list \<Rightarrow> int list" where
  "times_of key reqs = map snd (filter (\<lambda>r. fst r = key) reqs)"

definition in_window :: "int \<Rightarrow> int \<Rightarrow> int list \<Rightarrow> int list" where
  "in_window windowMs t ts = filter (\<lambda>x. t - windowMs < x \<and> x \<le> t) ts"

section \<open>Login attempts and lockout (User model)\<close>

text \<open>
  The update documents the methods hand to \<open>updateOne\<close>: \<open>$inc\<close> and \<open>$set\<close> on
  \<open>loginAttempts\<close>, \<open>$set\<close> and \<open>$unset\<close> on \<open>lockUntil\<close>.
\<close>

record user_update =
  inc_loginAttempts :: "int option"
  set_loginAttempts :: "int option"
  set_lockUntil :: "int option"
  unset_lockUntil :: bool

definition updateOne :: "user_update \<Rightarrow> user \<Rightarrow> user" where
  "updateOne upd u =
     u\<lparr>loginAttempts :=
         (case set_loginAttempts upd of
            Some n \<Rightarrow> n
          | None \<Rightarrow> (case inc_loginAttempts upd of
                       Some k \<Rightarrow> loginAttempts u + k
                     | None \<Rightarrow> loginAttempts u)),
       lockUntil :=
         (if unset_lockUntil upd then None
          else (case set_lockUntil upd of Some t \<Rightarrow> Some t | None \<Rightarrow> lockUntil u))\<rparr>"

text \<open>The virtual \<open>isLocked\<close>, read at clock value \<open>now\<close>.\<close>

definition isLocked :: "user \<Rightarrow> int \<Rightarrow> bool" where
  "isLocked u now = (case lockUntil u of None \<Rightarrow> False | Some l \<Rightarrow> l > now)"

text \<open>
  \<open>incLoginAttempts\<close> reads the clock three times: for the expiry test (\<open>now1\<close>), inside
  \<open>isLocked\<close> (\<open>now2\<close>) and for the new lock (\<open>now3\<close>).
\<close>

definition incLoginAttempts :: "user \<Rightarrow> int \<Rightarrow> int \<Rightarrow> int \<Rightarrow> user_update" where
  "incLoginAttempts this now1 now2 now3 =
     (if (case lockUntil this of None \<Rightarrow> False | Some l \<Rightarrow> l < now1)
      then \<lparr>inc_loginAttempts = None, set_loginAttempts = Some 1, set_lockUntil = None,
            unset_lockUntil = True\<rparr>
      else if loginAttempts this + 1 \<ge> 5 \<and> \<not> isLocked this now2
      then \<lparr>inc_loginAttempts = Some 1, set_loginAttempts = None,
            set_lockUntil = Some (now3 + 2 * 60 * 60 * 1000), unset_lockUntil = False\<rparr>
      else \<lparr>inc_loginAttempts = Some 1, set_loginAttempts = None, set_lockUntil = None,
            unset_lockUntil = False\<rparr>)"

definition resetLoginAttempts :: user_update where
  "resetLoginAttempts =
     \<lparr>inc_loginAttempts = None, set_loginAttempts = Some 0, set_lockUntil = None,
      unset_lockUntil = True\<rparr>"

text \<open>Users and a request trace for the concrete instances.\<close>

definition fifth_failure :: user where
  "fifth_failure = demo_user\<lparr>loginAttempts := 4\<rparr>"

definition lapsed_lock :: user where
  "lapsed_lock = demo_user\<lparr>loginAttempts := 7, lockUntil := Some 500\<rparr>"

definition burst :: "(string \<times> int) list" where
  "burst = [(''10.0.0.7u1'', 0), (''10.0.0.7u1'', 400), (''10.0.0.7u1'', 900)]"

section \<open>Properties of the hierarchy validator\<close>







lemma findById_unresolved:
  "truthy a \<Longrightarrow> resolve a = None \<Longrightarrow> findById coll a = Inl (CastError (id_toString a))"
  by (induction a rule: resolve.induct) simp_all
















text \<open>
  C9. With the role \<open>public\<close>, or any role string that is not one of the five handled
  ones, no rule applies and no query is made: the validator answers
  \<open>{isValid: true, errors: []}\<close> whatever the district, sector and cell arguments are,
  although the User schema requires \<open>hierarchy.district\<close> for every role other than
  \<open>super_admin\<close>.
\<close>

theorem validateHierarchy_unhandled_role:
  "r \<notin> set handled_roles \<Longrightarrow>
     validateHierarchy db r d s c = Inr \<lparr>isValid = True, errors = []\<rparr> \<and> district_required r"
  by (simp add: handled_roles_def validateHierarchy_def district_required_def)

theorem validateHierarchy_unhandled_role_witness:
  "''public'' \<notin> set handled_roles
   \<and> validateHierarchy demo_store ''public'' None (Some (Str ''nowhere'')) None
       = Inr \<lparr>isValid = True, errors = []\<rparr>
   \<and> district_required ''public''"
proof -
  have h: "''public'' \<notin> set handled_roles" by (simp add: handled_roles_def)
  show ?thesis
    using h validateHierarchy_unhandled_role [OF h, of demo_store None "Some (Str ''nowhere'')" None]
    by simp
qed

section \<open>Properties of the pre-save chain\<close>

lemmas validator_defs =
  required_string_def bounded_string_def required_ref_def one_of_def at_least_zero_def
  entity_statuses_def group_types_def trim_def is_space_def

lemma run_hooks_next:
  "h doc db = (Next, doc', db') \<Longrightarrow> run_hooks (h # hs) doc db = run_hooks hs doc' db'"
  by simp

lemma run_hooks_single: "run_hooks [h] doc db = h doc db"
proof (cases "h doc db")
  case (fields n doc' db')
  then show ?thesis by (cases n) simp_all
qed

lemma run_hooks_validate:
  "run_hooks (validate_hook v # hs) doc db =
     (if v doc = [] then run_hooks hs doc db
      else (NextError (ValidationError (v doc)), doc, db))"
  by (simp add: validate_hook_def)

declare run_hooks.simps [simp del]

lemma cell_admin_hook_next:
  "cell_admin_hook doc db = (Next, doc, store_after (cell_admin_hook doc db))"
  by (simp add: cell_admin_hook_def store_after_def split: option.splits)

lemma cell_admin_hook_sectors:
  "sectors (store_after (cell_admin_hook doc db)) = sectors db"
  by (simp add: cell_admin_hook_def store_after_def split: option.splits)

lemma cell_hooks_eq:
  "run_hooks [cell_admin_hook, cell_refs_hook] doc db
     = cell_refs_hook doc (store_after (cell_admin_hook doc db))"
proof -
  have "run_hooks [cell_admin_hook, cell_refs_hook] doc db
      = run_hooks [cell_refs_hook] doc (store_after (cell_admin_hook doc db))"
    by (rule run_hooks_next [OF cell_admin_hook_next])
  then show ?thesis by (simp only: run_hooks_single)
qed

lemma cell_pre_save_eq:
  "cell_pre_save doc db =
     (if cell_validate doc = [] then cell_refs_hook doc (store_after (cell_admin_hook doc db))
      else (NextError (ValidationError (cell_validate doc)), doc, db))"
  by (simp only: cell_pre_save_def run_hooks_validate cell_hooks_eq)

lemma group_leader_hook_next:
  "group_leader_hook doc db = (Next, doc, store_after (group_leader_hook doc db))"
  by (simp add: group_leader_hook_def store_after_def split: option.splits)

lemma group_leader_hook_cells:
  "cells (store_after (group_leader_hook doc db)) = cells db"
  by (simp add: group_leader_hook_def store_after_def split: option.splits)

lemma group_hooks_eq:
  "run_hooks [group_leader_hook, group_refs_hook] doc db
     = group_refs_hook doc (store_after (group_leader_hook doc db))"
proof -
  have "run_hooks [group_leader_hook, group_refs_hook] doc db
      = run_hooks [group_refs_hook] doc (store_after (group_leader_hook doc db))"
    by (rule run_hooks_next [OF group_leader_hook_next])
  then show ?thesis by (simp only: run_hooks_single)
qed

lemma group_pre_save_eq:
  "group_pre_save doc db =
     (if group_validate doc = [] then group_refs_hook doc (store_after (group_leader_hook doc db))
      else (NextError (ValidationError (group_validate doc)), doc, db))"
  by (simp only: group_pre_save_def run_hooks_validate group_hooks_eq)

lemma district_pre_save_eq:
  "district_pre_save doc db =
     (if district_validate doc = [] then district_admin_hook doc db
      else (NextError (ValidationError (district_validate doc)), doc, db))"
  by (simp only: district_pre_save_def run_hooks_validate run_hooks_single)

lemma sector_pre_save_eq:
  "sector_pre_save doc db =
     (if sector_validate doc = [] then sector_admin_hook doc db
      else (NextError (ValidationError (sector_validate doc)), doc, db))"
  by (simp only: sector_pre_save_def run_hooks_validate run_hooks_single)

text \<open>A query by an ObjectId the document holds never fails, so the reference hooks
  always call \<open>next()\<close> without an error.\<close>

lemma findById_oid: "findById coll (map_option Oid x) = Inr (Option.bind x coll)"
  by (cases x) simp_all

lemma cell_refs_hook_outcome: "fst (cell_refs_hook doc db) = Next"
  by (simp add: cell_refs_hook_def findById_oid split: option.splits)

lemma group_refs_hook_outcome: "fst (group_refs_hook doc db) = Next"
  by (simp add: group_refs_hook_def findById_oid split: option.splits)

lemma cell_refs_hook_store: "store_after (cell_refs_hook doc db) = db"
  by (simp add: cell_refs_hook_def store_after_def split: option.splits sum.splits)

lemma cell_pre_save_store:
  "store_after (cell_pre_save doc db) =
     (if cell_validate doc = [] then store_after (cell_admin_hook doc db) else db)"
  by (simp add: cell_pre_save_eq cell_refs_hook_store) (simp add: store_after_def)

lemma group_refs_hook_store: "store_after (group_refs_hook doc db) = db"
  by (simp add: group_refs_hook_def store_after_def split: option.splits sum.splits)

lemma group_pre_save_store:
  "store_after (group_pre_save doc db) =
     (if group_validate doc = [] then store_after (group_leader_hook doc db) else db)"
  by (simp add: group_pre_save_eq group_refs_hook_store) (simp add: store_after_def)

lemma district_pre_save_store:
  "store_after (district_pre_save doc db) =
     (if district_validate doc = [] then store_after (district_admin_hook doc db) else db)"
  by (simp add: district_pre_save_eq) (simp add: store_after_def)

lemma sector_pre_save_store:
  "store_after (sector_pre_save doc db) =
     (if sector_validate doc = [] then store_after (sector_admin_hook doc db) else db)"
  by (simp add: sector_pre_save_eq) (simp add: store_after_def)

lemma cell_validate_refs:
  "cell_validate doc = [] \<Longrightarrow> cd_sector doc \<noteq> None \<and> cd_district doc \<noteq> None"
  by (auto simp: cell_validate_def required_ref_def split: if_splits)

lemma group_validate_refs:
  "group_validate doc = [] \<Longrightarrow>
     gd_cell doc \<noteq> None \<and> gd_sector doc \<noteq> None \<and> gd_district doc \<noteq> None"
  by (auto simp: group_validate_def required_ref_def split: if_splits)

lemma demo_sector: "sectors demo_store id_NYA = Some \<lparr>s_code = ''NYA'', s_district = id_KGL\<rparr>"
  by (simp add: demo_store_def)

lemma demo_cell:
  "cells demo_store id_C1 = Some \<lparr>c_code = ''C1'', c_sector = id_NYA, c_district = id_KGL\<rparr>"
  by (simp add: demo_store_def)

lemma demo_no_sector: "sectors demo_store id_S404 = None"
  by (simp add: demo_store_def)

lemma demo_no_cell: "cells demo_store id_C404 = None"
  by (simp add: demo_store_def)

lemma base_cell_valid: "cell_validate base_cell = []"
  by (simp add: cell_validate_def base_cell_def validator_defs)

lemma base_group_valid: "group_validate base_group = []"
  by (simp add: group_validate_def base_group_def validator_defs)

lemma orphan_cell_valid: "cell_validate orphan_cell = []"
  by (simp add: cell_validate_def orphan_cell_def base_cell_def validator_defs)

lemma orphan_group_valid: "group_validate orphan_group = []"
  by (simp add: group_validate_def orphan_group_def base_group_def validator_defs)

lemma misfiled_cell_valid: "cell_validate misfiled_cell = []"
  by (simp add: cell_validate_def misfiled_cell_def base_cell_def validator_defs)

lemma kept_cell_valid: "cell_validate kept_cell = []"
  by (simp add: cell_validate_def kept_cell_def base_cell_def validator_defs)

lemma led_group_valid: "group_validate led_group = []"
  by (simp add: group_validate_def led_group_def base_group_def validator_defs)

lemma kept_district_valid: "district_validate kept_district = []"
  by (simp add: district_validate_def kept_district_def validator_defs)

lemma kept_sector_valid: "sector_validate kept_sector = []"
  by (simp add: sector_validate_def kept_sector_def validator_defs)

subsection \<open>Auto-fill of the parent references\<close>

text \<open>
  A new Cell that holds no district fails the validator of the required path
  \<open>district\<close>, and a new IntoreGroup that holds no sector or no district fails theirs:
  the save is rejected before the schema's hooks run, and the document is as it came.
\<close>

lemma cell_without_district_rejected:
  assumes "cd_district doc = None"
  shows "cell_validate doc \<noteq> []"
    and "cell_pre_save doc db = (NextError (ValidationError (cell_validate doc)), doc, db)"
proof -
  show v: "cell_validate doc \<noteq> []"
    using assms by (simp add: cell_validate_def required_ref_def)
  show "cell_pre_save doc db = (NextError (ValidationError (cell_validate doc)), doc, db)"
    using v by (simp add: cell_pre_save_eq)
qed

lemma group_without_parents_rejected:
  assumes "gd_sector doc = None \<or> gd_district doc = None"
  shows "group_validate doc \<noteq> []"
    and "group_pre_save doc db = (NextError (ValidationError (group_validate doc)), doc, db)"
proof -
  show v: "group_validate doc \<noteq> []"
    using assms by (auto simp: group_validate_def required_ref_def)
  show "group_pre_save doc db = (NextError (ValidationError (group_validate doc)), doc, db)"
    using v by (simp add: group_pre_save_eq)
qed

text \<open>
  C4, at the documents of its example: District KGL, Sector NYA of district KGL, and a
  new Cell that holds the sector NYA and no district. The save is rejected with a
  ValidationError on the path \<open>district\<close>; the reference hook that would fill the
  district is not reached, and the Cell is handed on with no district. A new
  IntoreGroup that holds only the cell C1 is rejected on the paths \<open>sector\<close> and
  \<open>district\<close> in the same way.
\<close>

theorem create_without_parent_fields_rejected:
  "cd_isNew new_cell
   \<and> cd_sector new_cell = Some id_NYA
   \<and> cd_district new_cell = None
   \<and> map_option s_district (sectors demo_store id_NYA) = Some id_KGL
   \<and> outcome (cell_pre_save new_cell demo_store) = NextError (ValidationError [''district''])
   \<and> cd_district (saved_doc (cell_pre_save new_cell demo_store)) = None
   \<and> gd_isNew new_group
   \<and> gd_cell new_group = Some id_C1
   \<and> cells demo_store id_C1 \<noteq> None
   \<and> outcome (group_pre_save new_group demo_store)
       = NextError (ValidationError [''sector'', ''district''])
   \<and> gd_sector (saved_doc (group_pre_save new_group demo_store)) = None
   \<and> gd_district (saved_doc (group_pre_save new_group demo_store)) = None"
proof -
  have c: "cell_validate new_cell = [''district'']"
    by (simp add: cell_validate_def new_cell_def base_cell_def validator_defs)
  have g: "group_validate new_group = [''sector'', ''district'']"
    by (simp add: group_validate_def new_group_def base_group_def validator_defs)
  have d: "cd_isNew new_cell \<and> cd_sector new_cell = Some id_NYA \<and> cd_district new_cell = None
      \<and> gd_isNew new_group \<and> gd_cell new_group = Some id_C1
      \<and> gd_sector new_group = None \<and> gd_district new_group = None"
    by (simp add: new_cell_def base_cell_def new_group_def base_group_def)
  show ?thesis
    using d by (simp add: cell_pre_save_eq group_pre_save_eq c g outcome_def saved_doc_def
        demo_sector demo_cell)
qed

text \<open>
  Where a new document passes validation and its parent is stored, the reference hook
  replaces the district (and for a group the sector) the document came with.
\<close>

lemma cell_autofill:
  assumes "cell_validate doc = []" "cd_isNew doc" "cd_sector doc = Some sid"
    "sectors db sid = Some sec"
  shows "outcome (cell_pre_save doc db) = Next"
    and "cd_district (saved_doc (cell_pre_save doc db)) = Some (s_district sec)"
  using assms
  by (simp_all add: cell_pre_save_eq cell_refs_hook_def cell_admin_hook_sectors
      outcome_def saved_doc_def)

lemma group_autofill:
  assumes "group_validate g = []" "gd_isNew g" "gd_cell g = Some cid" "cells db cid = Some ce"
  shows "outcome (group_pre_save g db) = Next"
    and "gd_sector (saved_doc (group_pre_save g db)) = Some (c_sector ce)"
    and "gd_district (saved_doc (group_pre_save g db)) = Some (c_district ce)"
  using assms
  by (simp_all add: group_pre_save_eq group_refs_hook_def group_leader_hook_cells
      outcome_def saved_doc_def)

subsection \<open>A parent reference that names nothing\<close>

lemma cell_admin_hook_frame:
  "Some u \<noteq> cd_admin doc \<Longrightarrow> users (store_after (cell_admin_hook doc db)) u = users db u"
  by (auto simp: cell_admin_hook_def store_after_def findByIdAndUpdate_def split: option.splits)

lemma group_leader_hook_frame:
  "Some u \<noteq> gd_leader doc \<Longrightarrow> users (store_after (group_leader_hook doc db)) u = users db u"
  by (auto simp: group_leader_hook_def store_after_def findByIdAndUpdate_def
      split: option.splits)

lemma cell_missing_parent:
  assumes "cd_isNew doc" "cd_sector doc = Some sid" "sectors db sid = None"
  shows "run_hooks [cell_admin_hook, cell_refs_hook] doc db
           = (Next, doc, store_after (cell_admin_hook doc db))"
  using assms
  by (simp add: cell_hooks_eq cell_refs_hook_def cell_admin_hook_sectors)

lemma group_missing_parent:
  assumes "gd_isNew g" "gd_cell g = Some cid" "cells db cid = None"
  shows "run_hooks [group_leader_hook, group_refs_hook] g db
           = (Next, g, store_after (group_leader_hook g db))"
  using assms
  by (simp add: group_hooks_eq group_refs_hook_def group_leader_hook_cells)

text \<open>
  C3, as the code has it. When a new Cell's sector (a new IntoreGroup's cell) names no
  stored document, the create is not rejected on that account: the schema's hooks call
  \<open>next()\<close> without an error, so the chain ends with \<open>next()\<close> unless the document
  fails the schema's own validation before the hooks run. The document is handed on
  with its hierarchy fields exactly as it came (nothing is auto-filled), and no user
  other than the document's admin (leader) is changed.
\<close>

theorem create_with_missing_parent_proceeds:
  "(cd_isNew doc \<and> cd_sector doc = Some sid \<and> sectors db sid = None \<longrightarrow>
      outcome (cell_pre_save doc db)
        = (if cell_validate doc = [] then Next
           else NextError (ValidationError (cell_validate doc)))
      \<and> saved_doc (cell_pre_save doc db) = doc
      \<and> (\<forall>u. Some u \<noteq> cd_admin doc \<longrightarrow>
            users (store_after (cell_pre_save doc db)) u = users db u))
   \<and> (gd_isNew g \<and> gd_cell g = Some cid \<and> cells db cid = None \<longrightarrow>
      outcome (group_pre_save g db)
        = (if group_validate g = [] then Next
           else NextError (ValidationError (group_validate g)))
      \<and> saved_doc (group_pre_save g db) = g
      \<and> (\<forall>u. Some u \<noteq> gd_leader g \<longrightarrow>
            users (store_after (group_pre_save g db)) u = users db u))"
proof (intro conjI impI)
  assume a: "cd_isNew doc \<and> cd_sector doc = Some sid \<and> sectors db sid = None"
  then have e: "cell_pre_save doc db =
      (if cell_validate doc = [] then (Next, doc, store_after (cell_admin_hook doc db))
       else (NextError (ValidationError (cell_validate doc)), doc, db))"
    by (simp add: cell_pre_save_def run_hooks_validate cell_missing_parent)
  show "outcome (cell_pre_save doc db)
      = (if cell_validate doc = [] then Next else NextError (ValidationError (cell_validate doc)))"
    by (simp add: e outcome_def)
  show "saved_doc (cell_pre_save doc db) = doc" by (simp add: e saved_doc_def)
  show "\<forall>u. Some u \<noteq> cd_admin doc \<longrightarrow>
      users (store_after (cell_pre_save doc db)) u = users db u"
    using cell_admin_hook_frame [of _ doc db] by (simp add: e store_after_def)
next
  assume a: "gd_isNew g \<and> gd_cell g = Some cid \<and> cells db cid = None"
  then have e: "group_pre_save g db =
      (if group_validate g = [] then (Next, g, store_after (group_leader_hook g db))
       else (NextError (ValidationError (group_validate g)), g, db))"
    by (simp add: group_pre_save_def run_hooks_validate group_missing_parent)
  show "outcome (group_pre_save g db)
      = (if group_validate g = [] then Next else NextError (ValidationError (group_validate g)))"
    by (simp add: e outcome_def)
  show "saved_doc (group_pre_save g db) = g" by (simp add: e saved_doc_def)
  show "\<forall>u. Some u \<noteq> gd_leader g \<longrightarrow>
      users (store_after (group_pre_save g db)) u = users db u"
    using group_leader_hook_frame [of _ g db] by (simp add: e store_after_def)
qed

theorem create_with_missing_parent_proceeds_witness:
  "outcome (cell_pre_save orphan_cell demo_store) = Next
   \<and> saved_doc (cell_pre_save orphan_cell demo_store) = orphan_cell
   \<and> users (store_after (cell_pre_save orphan_cell demo_store)) id_U2 = users demo_store id_U2
   \<and> outcome (group_pre_save orphan_group demo_store) = Next
   \<and> saved_doc (group_pre_save orphan_group demo_store) = orphan_group
   \<and> users (store_after (group_pre_save orphan_group demo_store)) id_U1 = users demo_store id_U1"
proof -
  have c: "cd_isNew orphan_cell \<and> cd_sector orphan_cell = Some id_S404
      \<and> Some id_U2 \<noteq> cd_admin orphan_cell"
    by (simp add: orphan_cell_def base_cell_def)
  have g: "gd_isNew orphan_group \<and> gd_cell orphan_group = Some id_C404
      \<and> Some id_U1 \<noteq> gd_leader orphan_group"
    by (simp add: orphan_group_def base_group_def)
  show ?thesis
    using create_with_missing_parent_proceeds [of orphan_cell id_S404 demo_store
        orphan_group id_C404] c g demo_no_sector demo_no_cell
      orphan_cell_valid orphan_group_valid
    by simp
qed

text \<open>
  The statement of C3 fails at a new Cell that passes validation and whose sector is
  not stored: the chain ends with \<open>next()\<close>, no error is raised, and the Cell's admin
  has been rewritten. The same holds for a new IntoreGroup whose cell is not stored.
\<close>

theorem create_with_missing_parent_counterexample:
  "cd_isNew orphan_cell
   \<and> cell_validate orphan_cell = []
   \<and> findById (sectors demo_store) (map_option Oid (cd_sector orphan_cell)) = Inr None
   \<and> outcome (cell_pre_save orphan_cell demo_store) = Next
   \<and> users (store_after (cell_pre_save orphan_cell demo_store)) id_U1 \<noteq> users demo_store id_U1
   \<and> gd_isNew orphan_group
   \<and> group_validate orphan_group = []
   \<and> findById (cells demo_store) (map_option Oid (gd_cell orphan_group)) = Inr None
   \<and> outcome (group_pre_save orphan_group demo_store) = Next"
proof -
  have c: "cd_isNew orphan_cell \<and> cd_sector orphan_cell = Some id_S404
      \<and> cd_admin orphan_cell = Some id_U1 \<and> isModified ''admin'' (cd_modified orphan_cell)"
    by (simp add: orphan_cell_def base_cell_def isModified_def)
  have g: "gd_isNew orphan_group \<and> gd_cell orphan_group = Some id_C404
      \<and> gd_leader orphan_group = None"
    by (simp add: orphan_group_def base_group_def)
  have u: "users demo_store id_U1 = Some demo_user" by (simp add: demo_store_def)
  have r: "cell_admin_update orphan_cell demo_user \<noteq> demo_user"
    by (simp add: cell_admin_update_def demo_user_def user.equality)
  show ?thesis
    by (simp add: cell_pre_save_eq group_pre_save_eq orphan_cell_valid orphan_group_valid
        cell_refs_hook_def group_refs_hook_def cell_admin_hook_def group_leader_hook_def
        findByIdAndUpdate_def store_after_def outcome_def c g u r demo_no_sector demo_no_cell)
qed

subsection \<open>The admin and leader cascade\<close>

text \<open>
  C5, at a new Cell that passes validation and arrives with district HUY and sector
  NYA, a sector of district KGL, and with admin \<open>U1\<close>. The admin hook runs first and
  copies the district the document came with onto the user; the reference hook then
  replaces the Cell's district by the sector's. The Cell leaves with district KGL, the
  user with role \<open>cell_admin\<close> and \<open>hierarchy.district\<close> HUY.
\<close>

theorem cell_admin_cascade_before_autofill:
  "cd_isNew misfiled_cell
   \<and> cd_admin misfiled_cell = Some id_U1
   \<and> isModified ''admin'' (cd_modified misfiled_cell)
   \<and> outcome (cell_pre_save misfiled_cell demo_store) = Next
   \<and> cd_district (saved_doc (cell_pre_save misfiled_cell demo_store)) = Some id_KGL
   \<and> map_option (\<lambda>u. h_district (hierarchy u))
        (users (store_after (cell_pre_save misfiled_cell demo_store)) id_U1) = Some (Some id_HUY)
   \<and> map_option role (users (store_after (cell_pre_save misfiled_cell demo_store)) id_U1)
        = Some ''cell_admin''"
proof -
  have c: "cd_isNew misfiled_cell \<and> cd_sector misfiled_cell = Some id_NYA
      \<and> cd_district misfiled_cell = Some id_HUY
      \<and> cd_admin misfiled_cell = Some id_U1 \<and> isModified ''admin'' (cd_modified misfiled_cell)"
    by (simp add: misfiled_cell_def base_cell_def isModified_def)
  have u: "users demo_store id_U1 = Some demo_user" by (simp add: demo_store_def)
  show ?thesis
    by (simp add: cell_pre_save_eq misfiled_cell_valid cell_refs_hook_def cell_admin_hook_def
        findByIdAndUpdate_def store_after_def saved_doc_def outcome_def c u demo_sector
        cell_admin_update_def)
qed

text \<open>
  Where the reference hook leaves the district alone (the Cell is not new, or its sector
  is not stored, or the sector's district is the one the Cell came with), the admin of a
  Cell that passes validation ends with the role \<open>cell_admin\<close> and the Cell's own
  district, sector and id.
\<close>

theorem cell_admin_cascade_matches:
  "cell_validate doc = [] \<Longrightarrow> isModified ''admin'' (cd_modified doc) \<Longrightarrow>
   cd_admin doc = Some uid \<Longrightarrow> users db uid = Some u \<Longrightarrow>
   cd_district (saved_doc (cell_pre_save doc db)) = cd_district doc \<Longrightarrow>
     map_option role (users (store_after (cell_pre_save doc db)) uid) = Some ''cell_admin''
     \<and> map_option hierarchy (users (store_after (cell_pre_save doc db)) uid)
         = Some \<lparr>h_district = cd_district (saved_doc (cell_pre_save doc db)),
                 h_sector = cd_sector (saved_doc (cell_pre_save doc db)),
                 h_cell = Some (cd_id (saved_doc (cell_pre_save doc db)))\<rparr>"
proof -
  assume v: "cell_validate doc = []"
    and m: "isModified ''admin'' (cd_modified doc)" and a: "cd_admin doc = Some uid"
    and s: "users db uid = Some u"
    and k: "cd_district (saved_doc (cell_pre_save doc db)) = cd_district doc"
  have u: "users (store_after (cell_pre_save doc db)) uid = Some (cell_admin_update doc u)"
    unfolding cell_pre_save_store using v m a s
    by (simp add: cell_admin_hook_def store_after_def findByIdAndUpdate_def)
  have d: "cd_sector (saved_doc (cell_pre_save doc db)) = cd_sector doc
      \<and> cd_id (saved_doc (cell_pre_save doc db)) = cd_id doc"
    by (simp add: cell_pre_save_eq cell_refs_hook_def saved_doc_def
        split: option.splits sum.splits)
  show ?thesis by (simp add: u d k cell_admin_update_def)
qed

theorem cell_admin_cascade_matches_witness:
  "cd_district (saved_doc (cell_pre_save kept_cell demo_store)) = Some id_KGL
   \<and> map_option role (users (store_after (cell_pre_save kept_cell demo_store)) id_U1)
       = Some ''cell_admin''
   \<and> map_option hierarchy (users (store_after (cell_pre_save kept_cell demo_store)) id_U1)
       = Some \<lparr>h_district = Some id_KGL, h_sector = Some id_NYA, h_cell = Some id_C1\<rparr>"
proof -
  have f: "cd_district kept_cell = Some id_KGL \<and> cd_sector kept_cell = Some id_NYA
      \<and> cd_id kept_cell = id_C1 \<and> \<not> cd_isNew kept_cell \<and> cd_admin kept_cell = Some id_U1"
    by (simp add: kept_cell_def base_cell_def)
  have m: "isModified ''admin'' (cd_modified kept_cell)"
    by (simp add: isModified_def kept_cell_def)
  have a: "cd_admin kept_cell = Some id_U1" using f by simp
  have s: "users demo_store id_U1 = Some demo_user" by (simp add: demo_store_def)
  have e: "saved_doc (cell_pre_save kept_cell demo_store) = kept_cell"
    using f by (simp add: cell_pre_save_eq kept_cell_valid cell_refs_hook_def saved_doc_def)
  have k: "cd_district (saved_doc (cell_pre_save kept_cell demo_store)) = cd_district kept_cell"
    by (simp only: e)
  show ?thesis
    using cell_admin_cascade_matches [OF kept_cell_valid m a s k] e f by simp
qed

lemma findByIdAndUpdate_twice:
  assumes "\<And>u. upd (upd u) = upd u"
  shows "findByIdAndUpdate (findByIdAndUpdate us i upd) i upd = findByIdAndUpdate us i upd"
  by (cases "us i") (simp_all add: findByIdAndUpdate_def assms)

lemma district_admin_update_twice:
  "district_admin_update doc (district_admin_update doc u) = district_admin_update doc u"
  by (simp add: district_admin_update_def)

lemma sector_admin_update_twice:
  "sector_admin_update doc (sector_admin_update doc u) = sector_admin_update doc u"
  by (simp add: sector_admin_update_def)

lemma cell_admin_update_twice:
  "cell_admin_update doc (cell_admin_update doc u) = cell_admin_update doc u"
  by (simp add: cell_admin_update_def)

lemma district_hook_twice:
  "store_after (district_admin_hook doc (store_after (district_admin_hook doc db)))
     = store_after (district_admin_hook doc db)"
  by (simp add: district_admin_hook_def store_after_def
      findByIdAndUpdate_twice [OF district_admin_update_twice] split: option.splits)

lemma sector_hook_twice:
  "store_after (sector_admin_hook doc (store_after (sector_admin_hook doc db)))
     = store_after (sector_admin_hook doc db)"
  by (simp add: sector_admin_hook_def store_after_def
      findByIdAndUpdate_twice [OF sector_admin_update_twice] split: option.splits)

lemma cell_hook_twice:
  "store_after (cell_admin_hook doc (store_after (cell_admin_hook doc db)))
     = store_after (cell_admin_hook doc db)"
  by (simp add: cell_admin_hook_def store_after_def
      findByIdAndUpdate_twice [OF cell_admin_update_twice] split: option.splits)

text \<open>
  C6. The cascade is idempotent: running the pre-save chain of a District, a Sector or a
  Cell a second time on the same document leaves the store, and with it every user's
  role and hierarchy, as the first run left it.
\<close>

theorem role_cascade_idempotent:
  "store_after (district_pre_save dd (store_after (district_pre_save dd db)))
     = store_after (district_pre_save dd db)
   \<and> store_after (sector_pre_save sd (store_after (sector_pre_save sd db)))
     = store_after (sector_pre_save sd db)
   \<and> store_after (cell_pre_save cd (store_after (cell_pre_save cd db)))
     = store_after (cell_pre_save cd db)"
  by (simp add: district_pre_save_store sector_pre_save_store cell_pre_save_store
      district_hook_twice sector_hook_twice cell_hook_twice)

theorem role_cascade_idempotent_witness:
  "map_option role (users (store_after (district_pre_save kept_district
      (store_after (district_pre_save kept_district demo_store)))) id_U1) = Some ''district_admin''
   \<and> map_option role (users (store_after (sector_pre_save kept_sector
      (store_after (sector_pre_save kept_sector demo_store)))) id_U1) = Some ''sector_admin''
   \<and> map_option hierarchy (users (store_after (cell_pre_save kept_cell
      (store_after (cell_pre_save kept_cell demo_store)))) id_U1)
       = Some \<lparr>h_district = Some id_KGL, h_sector = Some id_NYA, h_cell = Some id_C1\<rparr>"
proof -
  have u: "users demo_store id_U1 = Some demo_user" by (simp add: demo_store_def)
  have fd: "dd_admin kept_district = Some id_U1 \<and> dd_id kept_district = id_KGL
      \<and> isModified ''admin'' (dd_modified kept_district)"
    by (simp add: kept_district_def isModified_def)
  have fs: "sd_admin kept_sector = Some id_U1 \<and> sd_id kept_sector = id_NYA
      \<and> isModified ''admin'' (sd_modified kept_sector)"
    by (simp add: kept_sector_def isModified_def)
  have fc: "cd_admin kept_cell = Some id_U1 \<and> cd_id kept_cell = id_C1
      \<and> cd_sector kept_cell = Some id_NYA \<and> cd_district kept_cell = Some id_KGL
      \<and> isModified ''admin'' (cd_modified kept_cell)"
    by (simp add: kept_cell_def base_cell_def isModified_def)
  have d: "map_option role (users (store_after (district_pre_save kept_district demo_store)) id_U1)
      = Some ''district_admin''"
    unfolding district_pre_save_store
    by (simp add: kept_district_valid district_admin_hook_def store_after_def
        findByIdAndUpdate_def fd u district_admin_update_def)
  have s: "map_option role (users (store_after (sector_pre_save kept_sector demo_store)) id_U1)
      = Some ''sector_admin''"
    unfolding sector_pre_save_store
    by (simp add: kept_sector_valid sector_admin_hook_def store_after_def
        findByIdAndUpdate_def fs u sector_admin_update_def)
  have c: "map_option hierarchy (users (store_after (cell_pre_save kept_cell demo_store)) id_U1)
      = Some \<lparr>h_district = Some id_KGL, h_sector = Some id_NYA, h_cell = Some id_C1\<rparr>"
    unfolding cell_pre_save_store
    by (simp add: kept_cell_valid cell_admin_hook_def store_after_def
        findByIdAndUpdate_def fc u demo_user_def cell_admin_update_def)
  show ?thesis
    using role_cascade_idempotent [of kept_district demo_store kept_sector kept_cell] d s c
    by simp
qed

text \<open>
  C7. Saving an IntoreGroup that passes the schema's validation and whose leader field
  was set to a stored user puts the group's id into that user's \<open>intoreGroup\<close> and
  changes nothing else of the user: role and hierarchy stay as they were.
\<close>

theorem group_leader_sets_intoreGroup:
  "group_validate g = [] \<Longrightarrow> isModified ''leader'' (gd_modified g) \<Longrightarrow>
   gd_leader g = Some uid \<Longrightarrow> users db uid = Some u \<Longrightarrow>
     outcome (group_pre_save g db) = Next
     \<and> users (store_after (group_pre_save g db)) uid = Some (u\<lparr>intoreGroup := Some (gd_id g)\<rparr>)
     \<and> map_option intoreGroup (users (store_after (group_pre_save g db)) uid)
         = Some (Some (gd_id g))
     \<and> map_option role (users (store_after (group_pre_save g db)) uid) = Some (role u)
     \<and> map_option hierarchy (users (store_after (group_pre_save g db)) uid)
         = Some (hierarchy u)"
proof -
  assume v: "group_validate g = []" and m: "isModified ''leader'' (gd_modified g)"
    and l: "gd_leader g = Some uid" and s: "users db uid = Some u"
  have o: "outcome (group_pre_save g db) = Next"
    using v by (simp add: group_pre_save_eq group_refs_hook_outcome outcome_def)
  have u: "users (store_after (group_pre_save g db)) uid
      = Some (u\<lparr>intoreGroup := Some (gd_id g)\<rparr>)"
    unfolding group_pre_save_store using v m l s
    by (simp add: group_leader_hook_def store_after_def findByIdAndUpdate_def
        group_leader_update_def)
  show ?thesis by (simp add: o u)
qed

theorem group_leader_sets_intoreGroup_witness:
  "group_validate led_group = []
   \<and> outcome (group_pre_save led_group demo_store) = Next
   \<and> map_option intoreGroup (users (store_after (group_pre_save led_group demo_store)) id_U1)
     = Some (Some id_G9)
   \<and> map_option role (users (store_after (group_pre_save led_group demo_store)) id_U1)
     = Some ''member''
   \<and> map_option hierarchy (users (store_after (group_pre_save led_group demo_store)) id_U1)
     = Some \<lparr>h_district = None, h_sector = None, h_cell = None\<rparr>"
proof -
  have m: "isModified ''leader'' (gd_modified led_group)"
    by (simp add: isModified_def led_group_def)
  have l: "gd_leader led_group = Some id_U1" by (simp add: led_group_def)
  have u: "users demo_store id_U1 = Some demo_user" by (simp add: demo_store_def)
  have i: "gd_id led_group = id_G9" by (simp add: led_group_def base_group_def)
  show ?thesis
    using group_leader_sets_intoreGroup [OF led_group_valid m l u] i led_group_valid
    by (simp add: demo_user_def)
qed

section \<open>Properties of the global error handler\<close>

text \<open>
  The call the handler makes names the resource type \<open>system\<close>, which the schema's
  \<open>enum\<close> does not list, and passes \<open>null\<close> for the required \<open>resourceId\<close>.
\<close>

lemma audit_call_refused: "\<not> auditLog_accepts (error_audit_call err req uid)"
  by (simp add: auditLog_accepts_def error_audit_call_def)

text \<open>
  Whenever the audit write throws on a request with a user, no response is sent; and the
  repository's own \<open>logAction\<close> throws on every such request.
\<close>

theorem errorHandler_rejects:
  "rq_user req = Some uid \<Longrightarrow> audit (error_audit_call err req uid) = WriteFailed e \<Longrightarrow>
     \<exists>e'. errorHandler development audit err req = Inl e'"
  by (simp add: errorHandler_def split: sum.splits)

theorem errorHandler_rejects_witness:
  "rq_user demo_request = Some id_U1
   \<and> logAction (error_audit_call demo_error demo_request id_U1) = WriteFailed ''ValidationError''
   \<and> (\<exists>e'. errorHandler True logAction demo_error demo_request = Inl e')"
proof -
  have u: "rq_user demo_request = Some id_U1" by (simp add: demo_request_def)
  have w: "logAction (error_audit_call demo_error demo_request id_U1)
      = WriteFailed ''ValidationError''"
    by (simp add: logAction_def audit_call_refused)
  show ?thesis
    using errorHandler_rejects [where req = demo_request and uid = id_U1 and audit = logAction
        and err = demo_error and e = "''ValidationError''" and development = True] u w
    by simp
qed

lemma errorHandler_own_audit_write:
  "rq_user req = Some uid \<Longrightarrow> \<exists>e'. errorHandler development logAction err req = Inl e'"
  by (simp add: errorHandler_def logAction_def audit_call_refused split: sum.splits)

text \<open>
  C2, at an error with status 403 and message \<open>Quota exceeded\<close> on a request of the
  authenticated user \<open>U1\<close>. With an audit write that succeeds the handler sends status
  403 and that message. With an audit write that throws, the handler's promise rejects
  with the audit write's error at the \<open>await\<close> and no response is sent; this is also what
  happens with the repository's own \<open>logAction\<close>.
\<close>

theorem errorHandler_audit_failure_masks_response:
  "rq_user demo_request = Some id_U1
   \<and> reply_error_of demo_error
       = Inr \<lparr>r_message = Text ''Quota exceeded'', r_statusCode = Some 403\<rparr>
   \<and> errorHandler False (\<lambda>a. Written) demo_error demo_request
       = Inr \<lparr>status = 403, success = False, message = Text ''Quota exceeded'', stack = None\<rparr>
   \<and> errorHandler False (\<lambda>a. WriteFailed ''audit store unreachable'') demo_error demo_request
       = Inl ''audit store unreachable''
   \<and> errorHandler False logAction demo_error demo_request = Inl ''ValidationError''"
  by (simp add: errorHandler_def error_response_def reply_error_of_def logAction_def
      auditLog_accepts_def error_audit_call_def demo_error_def demo_request_def Let_def)

section \<open>Properties of the rate limiter\<close>

lemma recorded_upd: "recorded (st(k \<mapsto> xs)) k' = (if k' = k then xs else recorded st k')"
  by (simp add: recorded_def)

lemma recorded_init: "recorded (if st k = None then st(k \<mapsto> []) else st) k' = recorded st k'"
  by (simp add: recorded_def)

lemma rate_step_reject:
  assumes "m \<le> length (filter (\<lambda>x. now - w < x) (recorded st k))"
  shows "rateLimitSensitive w m st k now =
           ((if st k = None then st(k \<mapsto> []) else st), TooMany too_many_response)"
  using assms by (auto simp: rateLimitSensitive_def recorded_def Let_def split: option.splits)

lemma rate_step_pass:
  assumes "length (filter (\<lambda>x. now - w < x) (recorded st k)) < m"
  shows "rateLimitSensitive w m st k now =
           (st(k \<mapsto> filter (\<lambda>x. now - w < x) (recorded st k) @ [now]), Passed)"
  using assms by (auto simp: rateLimitSensitive_def recorded_def Let_def split: option.splits)

lemma length_filter_mono:
  "(\<And>x. x \<in> set xs \<Longrightarrow> P x \<Longrightarrow> Q x) \<Longrightarrow> length (filter P xs) \<le> length (filter Q xs)"
  by (induction xs) auto

lemma times_of_append: "times_of k (xs @ ys) = times_of k xs @ times_of k ys"
  by (simp add: times_of_def)

lemma times_of_single: "times_of k [(k0, x)] = (if k0 = k then [x] else [])"
  by (simp add: times_of_def)

lemma times_of_set: "x \<in> set (times_of k P) \<Longrightarrow> (k, x) \<in> set P"
  by (auto simp: times_of_def)

text \<open>
  The invariant of a run: from the time \<open>T\<close> of the last request on, what a check reads
  of the recorded list of a key (its entries younger than the window) is what it would
  read of the list \<open>P\<close> of requests passed so far. A rejected and a passed check keep it.
\<close>

lemma tracks_reject:
  assumes "\<forall>k b. T \<le> b \<longrightarrow>
             filter (\<lambda>x. b - w < x) (recorded st k) = filter (\<lambda>x. b - w < x) (times_of k P)"
    and "T \<le> now"
  shows "\<forall>k b. now \<le> b \<longrightarrow>
           filter (\<lambda>x. b - w < x) (recorded (if st k0 = None then st(k0 \<mapsto> []) else st) k)
             = filter (\<lambda>x. b - w < x) (times_of k P)"
  using assms by (simp only: recorded_init) (meson order_trans)

lemma tracks_pass:
  assumes "\<forall>k b. T \<le> b \<longrightarrow>
             filter (\<lambda>x. b - w < x) (recorded st k) = filter (\<lambda>x. b - w < x) (times_of k P)"
    and "T \<le> now"
  shows "\<forall>k b. now \<le> b \<longrightarrow>
           filter (\<lambda>x. b - w < x)
             (recorded (st(k0 \<mapsto> filter (\<lambda>x. now - w < x) (recorded st k0) @ [now])) k)
             = filter (\<lambda>x. b - w < x) (times_of k (P @ [(k0, now)]))"
proof (intro allI impI)
  fix k b assume b: "now \<le> (b::int)"
  then have Tb: "T \<le> b" using assms(2) by simp
  have old: "filter (\<lambda>x. b - w < x) (recorded st k) = filter (\<lambda>x. b - w < x) (times_of k P)"
    using assms(1) Tb by blast
  show "filter (\<lambda>x. b - w < x)
          (recorded (st(k0 \<mapsto> filter (\<lambda>x. now - w < x) (recorded st k0) @ [now])) k)
        = filter (\<lambda>x. b - w < x) (times_of k (P @ [(k0, now)]))"
  proof (cases "k = k0")
    case True
    have "filter (\<lambda>x. b - w < x) (filter (\<lambda>x. now - w < x) (recorded st k0))
        = filter (\<lambda>x. b - w < x) (recorded st k0)"
      using b by (auto intro: filter_cong)
    then show ?thesis
      using old True by (simp add: recorded_upd times_of_append times_of_single)
  next
    case False
    then show ?thesis
      using old by (simp add: recorded_upd times_of_append times_of_single)
  qed
qed

text \<open>
  The bound, for a run that starts from any state the invariant holds of. The clock
  does not run backwards: the requests come in the order of their timestamps.
\<close>

lemma admitted_bound_aux:
  assumes "sorted (map snd reqs)"
    and "\<forall>r \<in> set reqs. T \<le> snd r"
    and "\<forall>k b. T \<le> b \<longrightarrow>
           filter (\<lambda>x. b - w < x) (recorded st k) = filter (\<lambda>x. b - w < x) (times_of k P)"
    and "\<forall>r \<in> set P. snd r \<le> T"
    and "\<forall>k t. length (in_window w t (times_of k P)) \<le> m"
  shows "length (in_window w t (times_of k (P @ admitted w m st reqs))) \<le> m"
  using assms
proof (induction reqs arbitrary: st P T)
  case Nil
  then show ?case by simp
next
  case (Cons r rest)
  obtain k0 now where r: "r = (k0, now)" by (cases r)
  have Tnow: "T \<le> now" using Cons.prems(2) r by simp
  have sorted_rest: "sorted (map snd rest)" using Cons.prems(1) by simp
  have rest_ge: "\<forall>q \<in> set rest. now \<le> snd q" using Cons.prems(1) r by auto
  have P_le: "\<forall>q \<in> set P. snd q \<le> now" using Cons.prems(4) Tnow by auto
  let ?V = "filter (\<lambda>x. now - w < x) (recorded st k0)"
  have V: "?V = filter (\<lambda>x. now - w < x) (times_of k0 P)"
    using Cons.prems(3) Tnow by blast
  show ?case
  proof (cases "m \<le> length ?V")
    case True
    let ?st1 = "if st k0 = None then st(k0 \<mapsto> []) else st"
    have step: "admitted w m st (r # rest) = admitted w m ?st1 rest"
      using rate_step_reject [OF True] by (simp add: r)
    show ?thesis
      unfolding step
      by (rule Cons.IH [OF sorted_rest rest_ge tracks_reject [OF Cons.prems(3) Tnow] P_le
            Cons.prems(5)])
  next
    case False
    then have less: "length ?V < m" by simp
    let ?st2 = "st(k0 \<mapsto> ?V @ [now])"
    let ?P2 = "P @ [(k0, now)]"
    have step: "P @ admitted w m st (r # rest) = ?P2 @ admitted w m ?st2 rest"
      using rate_step_pass [OF less] by (simp add: r)
    have P2_le: "\<forall>q \<in> set ?P2. snd q \<le> now" using P_le by simp
    have bound: "\<forall>k t. length (in_window w t (times_of k ?P2)) \<le> m"
    proof (intro allI)
      fix k t
      show "length (in_window w t (times_of k ?P2)) \<le> m"
      proof (cases "k = k0 \<and> t - w < now \<and> now \<le> t")
        case False
        then have "in_window w t (times_of k ?P2) = in_window w t (times_of k P)"
          by (auto simp: times_of_append times_of_single in_window_def)
        then show ?thesis using Cons.prems(5) by simp
      next
        case True
        have "length (in_window w t (times_of k0 P))
            \<le> length (filter (\<lambda>x. now - w < x) (times_of k0 P))"
          unfolding in_window_def using True by (intro length_filter_mono) auto
        then have "length (in_window w t (times_of k0 P)) < m" using less V by simp
        moreover have "in_window w t (times_of k ?P2) = in_window w t (times_of k0 P) @ [now]"
          using True by (simp add: times_of_append times_of_single in_window_def)
        ultimately show ?thesis by simp
      qed
    qed
    show ?thesis
      unfolding step
      by (rule Cons.IH [OF sorted_rest rest_ge tracks_pass [OF Cons.prems(3) Tnow] P2_le bound])
  qed
qed

lemma admitted_bound:
  assumes "sorted (map snd reqs)"
  shows "length (in_window w t (times_of k (admitted w m Map.empty reqs))) \<le> m"
proof (cases reqs)
  case Nil
  then show ?thesis by (simp add: times_of_def in_window_def)
next
  case (Cons r rest)
  have ge: "\<forall>q \<in> set reqs. snd r \<le> snd q" using assms Cons by auto
  have "length (in_window w t (times_of k ([] @ admitted w m Map.empty reqs))) \<le> m"
    by (rule admitted_bound_aux [OF assms ge])
      (simp_all add: recorded_def times_of_def in_window_def)
  then show ?thesis by simp
qed

text \<open>The recorded lists at the end of a run, read through the window of a later check.\<close>

lemma run_tracks:
  assumes "sorted (map snd reqs)"
    and "\<forall>r \<in> set reqs. T \<le> snd r"
    and "\<forall>k b. T \<le> b \<longrightarrow>
           filter (\<lambda>x. b - w < x) (recorded st k) = filter (\<lambda>x. b - w < x) (times_of k P)"
    and "\<forall>r \<in> set reqs. snd r \<le> b" and "T \<le> b"
  shows "filter (\<lambda>x. b - w < x) (recorded (requests_after w m st reqs) k)
           = filter (\<lambda>x. b - w < x) (times_of k (P @ admitted w m st reqs))"
  using assms
proof (induction reqs arbitrary: st P T)
  case Nil
  then show ?case by simp
next
  case (Cons r rest)
  obtain k0 now where r: "r = (k0, now)" by (cases r)
  have Tnow: "T \<le> now" using Cons.prems(2) r by simp
  have nowb: "now \<le> b" using Cons.prems(4) r by simp
  have sorted_rest: "sorted (map snd rest)" using Cons.prems(1) by simp
  have rest_ge: "\<forall>q \<in> set rest. now \<le> snd q" using Cons.prems(1) r by auto
  have rest_le: "\<forall>q \<in> set rest. snd q \<le> b" using Cons.prems(4) by simp
  let ?V = "filter (\<lambda>x. now - w < x) (recorded st k0)"
  show ?case
  proof (cases "m \<le> length ?V")
    case True
    let ?st1 = "if st k0 = None then st(k0 \<mapsto> []) else st"
    have step: "admitted w m st (r # rest) = admitted w m ?st1 rest"
      "requests_after w m st (r # rest) = requests_after w m ?st1 rest"
      using rate_step_reject [OF True] by (simp_all add: r)
    show ?thesis
      unfolding step
      by (rule Cons.IH [OF sorted_rest rest_ge tracks_reject [OF Cons.prems(3) Tnow] rest_le
            nowb])
  next
    case False
    then have less: "length ?V < m" by simp
    let ?st2 = "st(k0 \<mapsto> ?V @ [now])"
    have step: "P @ admitted w m st (r # rest) = (P @ [(k0, now)]) @ admitted w m ?st2 rest"
      "requests_after w m st (r # rest) = requests_after w m ?st2 rest"
      using rate_step_pass [OF less] by (simp_all add: r)
    show ?thesis
      unfolding step
      by (rule Cons.IH [OF sorted_rest rest_ge tracks_pass [OF Cons.prems(3) Tnow] rest_le
            nowb])
  qed
qed

lemma admitted_subset: "set (admitted w m st reqs) \<subseteq> set reqs"
proof (induction reqs arbitrary: st)
  case Nil
  then show ?case by simp
next
  case (Cons r rest)
  obtain k0 now where r: "r = (k0, now)" by (cases r)
  obtain st' v where s: "rateLimitSensitive w m st k0 now = (st', v)"
    by (cases "rateLimitSensitive w m st k0 now")
  show ?case using Cons.IH [of st'] by (cases v) (auto simp: r s)
qed

lemma admitted_append:
  "admitted w m st (xs @ ys) = admitted w m st xs @ admitted w m (requests_after w m st xs) ys"
proof (induction xs arbitrary: st)
  case Nil
  then show ?case by simp
next
  case (Cons r rest)
  obtain k0 now where r: "r = (k0, now)" by (cases r)
  obtain st' v where s: "rateLimitSensitive w m st k0 now = (st', v)"
    by (cases "rateLimitSensitive w m st k0 now")
  show ?case using Cons.IH [of st'] by (cases v) (simp_all add: r s)
qed

lemma requests_after_append:
  "requests_after w m st (xs @ ys) = requests_after w m (requests_after w m st xs) ys"
proof (induction xs arbitrary: st)
  case Nil
  then show ?case by simp
next
  case (Cons r rest)
  obtain k0 now where r: "r = (k0, now)" by (cases r)
  show ?case using Cons.IH by (simp add: r)
qed

lemma window_of_past:
  assumes "\<forall>x \<in> set ts. x \<le> now"
  shows "in_window w now ts = filter (\<lambda>x. now - w < x) ts"
  unfolding in_window_def using assms by (auto intro: filter_cong)

lemma state_tracks_admitted:
  assumes "sorted (map snd reqs)" and "\<forall>r \<in> set reqs. snd r \<le> now"
  shows "filter (\<lambda>x. now - w < x) (recorded (requests_after w m Map.empty reqs) k)
           = in_window w now (times_of k (admitted w m Map.empty reqs))"
proof -
  have past: "\<forall>x \<in> set (times_of k (admitted w m Map.empty reqs)). x \<le> now"
  proof
    fix x assume "x \<in> set (times_of k (admitted w m Map.empty reqs))"
    then have "(k, x) \<in> set reqs" using times_of_set admitted_subset by fastforce
    then show "x \<le> now" using assms(2) by auto
  qed
  have "filter (\<lambda>x. now - w < x) (recorded (requests_after w m Map.empty reqs) k)
      = filter (\<lambda>x. now - w < x) (times_of k ([] @ admitted w m Map.empty reqs))"
  proof (cases reqs)
    case Nil
    then show ?thesis by (simp add: recorded_def times_of_def)
  next
    case (Cons r rest)
    have ge: "\<forall>q \<in> set reqs. snd r \<le> snd q" using assms(1) Cons by auto
    have le: "snd r \<le> now" using assms(2) Cons by simp
    show ?thesis
      by (rule run_tracks [OF assms(1) ge _ assms(2) le]) (simp add: recorded_def times_of_def)
  qed
  then show ?thesis using window_of_past [OF past] by simp
qed

lemma reject_when_window_full:
  assumes "sorted (map snd reqs)" and "\<forall>r \<in> set reqs. snd r \<le> now"
    and "m \<le> length (in_window w now (times_of key (admitted w m Map.empty reqs)))"
  shows "snd (rateLimitSensitive w m (requests_after w m Map.empty reqs) key now)
           = TooMany too_many_response"
    and "admitted w m Map.empty (reqs @ [(key, now)]) = admitted w m Map.empty reqs"
    and "recorded (requests_after w m Map.empty (reqs @ [(key, now)])) k
           = recorded (requests_after w m Map.empty reqs) k"
proof -
  let ?st = "requests_after w m Map.empty reqs"
  have full: "m \<le> length (filter (\<lambda>x. now - w < x) (recorded ?st key))"
    using assms(3) by (simp only: state_tracks_admitted [OF assms(1) assms(2)])
  note step = rate_step_reject [OF full]
  show "snd (rateLimitSensitive w m ?st key now) = TooMany too_many_response"
    by (simp add: step)
  show "admitted w m Map.empty (reqs @ [(key, now)]) = admitted w m Map.empty reqs"
    by (simp add: admitted_append step)
  show "recorded (requests_after w m Map.empty (reqs @ [(key, now)])) k = recorded ?st k"
    by (simp only: requests_after_append requests_after.simps step fst_conv recorded_init)
qed

lemma pass_when_window_open:
  assumes "sorted (map snd reqs)" and "\<forall>r \<in> set reqs. snd r \<le> now"
    and "length (in_window w now (times_of key (admitted w m Map.empty reqs))) < m"
  shows "snd (rateLimitSensitive w m (requests_after w m Map.empty reqs) key now) = Passed"
    and "recorded (requests_after w m Map.empty (reqs @ [(key, now)])) key
           = in_window w now (times_of key (admitted w m Map.empty reqs)) @ [now]"
proof -
  let ?st = "requests_after w m Map.empty reqs"
  have eq: "filter (\<lambda>x. now - w < x) (recorded ?st key)
      = in_window w now (times_of key (admitted w m Map.empty reqs))"
    by (rule state_tracks_admitted [OF assms(1) assms(2)])
  have free: "length (filter (\<lambda>x. now - w < x) (recorded ?st key)) < m"
    using assms(3) by (simp only: eq)
  note step = rate_step_pass [OF free]
  show "snd (rateLimitSensitive w m ?st key now) = Passed"
    by (simp add: step)
  show "recorded (requests_after w m Map.empty (reqs @ [(key, now)])) key
      = in_window w now (times_of key (admitted w m Map.empty reqs)) @ [now]"
    by (simp add: requests_after_append step recorded_upd eq)
qed

text \<open>
  C8. Started on the empty map and fed requests in the order of their timestamps, the
  limiter passes at most \<open>max\<close> requests of one key in any window of \<open>windowMs\<close>
  milliseconds, that is among the timestamps \<open>t - windowMs + 1, ..., t\<close> for any \<open>t\<close>.
  A request that arrives while \<open>max\<close> or more passed requests of its key lie in
  \<open>(now - windowMs, now]\<close> is answered with status 429, is not passed, and leaves the
  recorded timestamps of every key as they were. A request that passes leaves for its key
  exactly the passed timestamps of the window followed by its own: the older ones are
  dropped at that check.
\<close>

theorem rate_limit_sliding_window:
  "sorted (map snd reqs) \<Longrightarrow>
     length (in_window w t (times_of key (admitted w m Map.empty reqs))) \<le> m
     \<and> ((\<forall>r \<in> set reqs. snd r \<le> now)
          \<and> m \<le> length (in_window w now (times_of key (admitted w m Map.empty reqs))) \<longrightarrow>
            snd (rateLimitSensitive w m (requests_after w m Map.empty reqs) key now)
              = TooMany too_many_response
            \<and> status too_many_response = 429
            \<and> admitted w m Map.empty (reqs @ [(key, now)]) = admitted w m Map.empty reqs
            \<and> (\<forall>k. recorded (requests_after w m Map.empty (reqs @ [(key, now)])) k
                   = recorded (requests_after w m Map.empty reqs) k))
     \<and> ((\<forall>r \<in> set reqs. snd r \<le> now)
          \<and> length (in_window w now (times_of key (admitted w m Map.empty reqs))) < m \<longrightarrow>
            snd (rateLimitSensitive w m (requests_after w m Map.empty reqs) key now) = Passed
            \<and> recorded (requests_after w m Map.empty (reqs @ [(key, now)])) key
                = in_window w now (times_of key (admitted w m Map.empty reqs)) @ [now])"
proof -
  assume s: "sorted (map snd reqs)"
  have "status too_many_response = 429" by (simp add: too_many_response_def)
  then show ?thesis
    using admitted_bound [OF s, of w t key m] reject_when_window_full [OF s, of now m w key]
      pass_when_window_open [OF s, of now w key m]
    by blast
qed

theorem rate_limit_sliding_window_witness:
  "rate_key (Some ''10.0.0.7'') (Some ''u1'') = ''10.0.0.7u1''
   \<and> sorted (map snd burst)
   \<and> length (in_window 1000 900 (times_of ''10.0.0.7u1'' (admitted 1000 2 Map.empty burst))) \<le> 2
   \<and> snd (rateLimitSensitive 1000 2 (requests_after 1000 2 Map.empty burst) ''10.0.0.7u1'' 950)
       = TooMany too_many_response
   \<and> admitted 1000 2 Map.empty (burst @ [(''10.0.0.7u1'', 950)]) = admitted 1000 2 Map.empty burst
   \<and> snd (rateLimitSensitive 1000 2 (requests_after 1000 2 Map.empty burst) ''10.0.0.7u1'' 1500)
       = Passed
   \<and> recorded (requests_after 1000 2 Map.empty (burst @ [(''10.0.0.7u1'', 1500)])) ''10.0.0.7u1''
       = [1500]"
proof -
  have s: "sorted (map snd burst)" by (simp add: burst_def)
  have a: "admitted 1000 2 Map.empty burst = [(''10.0.0.7u1'', 0), (''10.0.0.7u1'', 400)]"
    by (simp add: burst_def rateLimitSensitive_def Let_def)
  have p1: "\<forall>r \<in> set burst. snd r \<le> 950" by (simp add: burst_def)
  have p2: "\<forall>r \<in> set burst. snd r \<le> 1500" by (simp add: burst_def)
  have full: "2 \<le> length (in_window 1000 950
      (times_of ''10.0.0.7u1'' (admitted 1000 2 Map.empty burst)))"
    by (simp add: a in_window_def times_of_def)
  have free: "in_window 1000 1500 (times_of ''10.0.0.7u1'' (admitted 1000 2 Map.empty burst)) = []"
    by (simp add: a in_window_def times_of_def)
  show ?thesis
    using rate_limit_sliding_window [OF s, of 1000 900 "''10.0.0.7u1''" 2 950]
      rate_limit_sliding_window [OF s, of 1000 900 "''10.0.0.7u1''" 2 1500]
      s p1 p2 full free
    by (simp add: rate_key_def)
qed

section \<open>Properties of the login lockout\<close>

text \<open>
  C10. When \<open>lockUntil\<close> is absent or has not yet expired, the fifth failed attempt
  (\<open>loginAttempts + 1 \<ge> 5\<close>) on an account that is not locked sets \<open>lockUntil\<close> two hours
  (7200000 ms) ahead, which makes \<open>isLocked\<close> true, and adds one to \<open>loginAttempts\<close>.
  When \<open>lockUntil\<close> is there and has expired, \<open>incLoginAttempts\<close> sets
  \<open>loginAttempts\<close> to 1 and removes \<open>lockUntil\<close>. \<open>resetLoginAttempts\<close> always sets
  \<open>loginAttempts\<close> to 0 and removes \<open>lockUntil\<close>.
\<close>

theorem login_lockout:
  "(\<not> (case lockUntil this of None \<Rightarrow> False | Some l \<Rightarrow> l < t_expiry)
      \<and> loginAttempts this + 1 \<ge> 5 \<and> \<not> isLocked this t_locked \<longrightarrow>
        lockUntil (updateOne (incLoginAttempts this t_expiry t_locked t_set) this)
          = Some (t_set + 7200000)
        \<and> isLocked (updateOne (incLoginAttempts this t_expiry t_locked t_set) this) t_set
        \<and> loginAttempts (updateOne (incLoginAttempts this t_expiry t_locked t_set) this)
            = loginAttempts this + 1)
   \<and> (lockUntil this = Some l \<and> l < t_expiry \<longrightarrow>
        loginAttempts (updateOne (incLoginAttempts this t_expiry t_locked t_set) this) = 1
        \<and> lockUntil (updateOne (incLoginAttempts this t_expiry t_locked t_set) this) = None)
   \<and> loginAttempts (updateOne resetLoginAttempts this) = 0
   \<and> lockUntil (updateOne resetLoginAttempts this) = None"
  by (auto simp: incLoginAttempts_def updateOne_def isLocked_def resetLoginAttempts_def
      split: option.splits)

theorem login_lockout_witness:
  "lockUntil (updateOne (incLoginAttempts fifth_failure 1000 1000 1000) fifth_failure)
     = Some 7201000
   \<and> isLocked (updateOne (incLoginAttempts fifth_failure 1000 1000 1000) fifth_failure) 1000
   \<and> loginAttempts (updateOne (incLoginAttempts fifth_failure 1000 1000 1000) fifth_failure) = 5
   \<and> loginAttempts (updateOne (incLoginAttempts lapsed_lock 1000 1000 1000) lapsed_lock) = 1
   \<and> lockUntil (updateOne (incLoginAttempts lapsed_lock 1000 1000 1000) lapsed_lock) = None
   \<and> loginAttempts (updateOne resetLoginAttempts lapsed_lock) = 0
   \<and> lockUntil (updateOne resetLoginAttempts lapsed_lock) = None"
proof -
  have a: "\<not> (case lockUntil fifth_failure of None \<Rightarrow> False | Some l \<Rightarrow> l < 1000)
      \<and> loginAttempts fifth_failure + 1 \<ge> 5 \<and> \<not> isLocked fifth_failure 1000
      \<and> loginAttempts fifth_failure = 4"
    by (simp add: fifth_failure_def demo_user_def isLocked_def)
  have b: "lockUntil lapsed_lock = Some 500 \<and> (500::int) < 1000"
    by (simp add: lapsed_lock_def)
  show ?thesis
    using login_lockout [where this = fifth_failure and t_expiry = 1000 and t_locked = 1000
        and t_set = 1000 and l = 500]
      login_lockout [where this = lapsed_lock and t_expiry = 1000 and t_locked = 1000
        and t_set = 1000 and l = 500] a b
    by simp
qed

end
